theory Spec2Isabelle
  imports Complex_Main "HOL-Library.Multiset"
begin

section \<open>JavaScript values used by the signage code\<close>

text \<open>
  A JavaScript number is a finite value, one of the two infinities, or NaN. Finite
  values are idealised as reals (rounding to binary64 and the sign of zero are not
  represented). Every comparison with NaN is false, as in the language.
\<close>

datatype jsnum = NaN | Fin real | PInf | NInf

fun js_lt :: "jsnum \<Rightarrow> jsnum \<Rightarrow> bool" where
  "js_lt (Fin a) (Fin b) = (a < b)"
| "js_lt (Fin a) PInf = True"
| "js_lt NInf (Fin b) = True"
| "js_lt NInf PInf = True"
| "js_lt _ _ = False"

fun js_le :: "jsnum \<Rightarrow> jsnum \<Rightarrow> bool" where
  "js_le NaN _ = False"
| "js_le _ NaN = False"
| "js_le a b = (a = b \<or> js_lt a b)"

definition js_gt :: "jsnum \<Rightarrow> jsnum \<Rightarrow> bool" where
  "js_gt a b = js_lt b a"

definition js_ge :: "jsnum \<Rightarrow> jsnum \<Rightarrow> bool" where
  "js_ge a b = js_le b a"

fun inf_of_sign :: "real \<Rightarrow> jsnum" where
  "inf_of_sign r = (if r = 0 then NaN else if 0 < r then PInf else NInf)"

fun js_mul :: "jsnum \<Rightarrow> jsnum \<Rightarrow> jsnum" where
  "js_mul NaN _ = NaN"
| "js_mul _ NaN = NaN"
| "js_mul (Fin a) (Fin b) = Fin (a * b)"
| "js_mul (Fin a) PInf = inf_of_sign a"
| "js_mul (Fin a) NInf = inf_of_sign (- a)"
| "js_mul PInf (Fin b) = inf_of_sign b"
| "js_mul NInf (Fin b) = inf_of_sign (- b)"
| "js_mul PInf PInf = PInf"
| "js_mul NInf NInf = PInf"
| "js_mul PInf NInf = NInf"
| "js_mul NInf PInf = NInf"

fun js_add :: "jsnum \<Rightarrow> jsnum \<Rightarrow> jsnum" where
  "js_add NaN _ = NaN"
| "js_add _ NaN = NaN"
| "js_add (Fin a) (Fin b) = Fin (a + b)"
| "js_add PInf NInf = NaN"
| "js_add NInf PInf = NaN"
| "js_add PInf _ = PInf"
| "js_add NInf _ = NInf"
| "js_add _ PInf = PInf"
| "js_add _ NInf = NInf"

text \<open>Truthiness of a number: \<open>0\<close> and NaN are falsy. \<open>a || b\<close> on numbers.\<close>

fun js_truthy :: "jsnum \<Rightarrow> bool" where
  "js_truthy NaN = False"
| "js_truthy (Fin r) = (r \<noteq> 0)"
| "js_truthy _ = True"

definition js_or :: "jsnum \<Rightarrow> jsnum \<Rightarrow> jsnum" where
  "js_or a b = (if js_truthy a then a else b)"

fun isFinite :: "jsnum \<Rightarrow> bool" where
  "isFinite (Fin _) = True"
| "isFinite _ = False"

fun Math_min :: "jsnum \<Rightarrow> jsnum \<Rightarrow> jsnum" where
  "Math_min NaN _ = NaN"
| "Math_min _ NaN = NaN"
| "Math_min a b = (if js_le a b then a else b)"

fun Math_max :: "jsnum \<Rightarrow> jsnum \<Rightarrow> jsnum" where
  "Math_max NaN _ = NaN"
| "Math_max _ NaN = NaN"
| "Math_max a b = (if js_le a b then b else a)"

text \<open>
  A value as it arrives in a parsed JSON message, or \<open>undefined\<close> for a key that is
  absent. Arrays and objects are not represented. \<open>Number(v)\<close> follows the language's
  ToNumber; the reading of a string as a number (\<open>StringToNumber\<close>) is the parameter
  \<open>num\<close>, so that every statement below holds whatever the host's reading is.
\<close>

datatype jsval = JUndefined | JNull | JBool bool | JNum real | JStr string

fun Number :: "(string \<Rightarrow> jsnum) \<Rightarrow> jsval \<Rightarrow> jsnum" where
  "Number num JUndefined = NaN"
| "Number num JNull = Fin 0"
| "Number num (JBool b) = (if b then Fin 1 else Fin 0)"
| "Number num (JNum r) = Fin r"
| "Number num (JStr s) = num s"

text \<open>
  A reading of unsigned decimal digit strings, used to run the definitions on concrete
  inputs such as \<open>''09:30''\<close>. The empty string reads as \<open>0\<close> and anything that is not a
  digit string as NaN.
\<close>

definition digit_val :: "char \<Rightarrow> nat option" where
  "digit_val c =
     (let n = (of_char c :: nat) in if 48 \<le> n \<and> n \<le> 57 then Some (n - 48) else None)"

fun digits_acc :: "nat \<Rightarrow> string \<Rightarrow> nat option" where
  "digits_acc acc [] = Some acc"
| "digits_acc acc (c # cs) =
     (case digit_val c of None \<Rightarrow> None | Some d \<Rightarrow> digits_acc (10 * acc + d) cs)"

definition decimal :: "string \<Rightarrow> jsnum" where
  "decimal s = (case digits_acc 0 s of None \<Rightarrow> NaN | Some n \<Rightarrow> Fin (real n))"

text \<open>\<open>typeof x === 'number' && x > 0\<close> on an optional numeric field.\<close>

fun positive :: "real option \<Rightarrow> bool" where
  "positive None = False"
| "positive (Some d) = (0 < d)"

text \<open>\<open>s.startsWith(p)\<close>.\<close>

definition startsWith :: "string \<Rightarrow> string \<Rightarrow> bool" where
  "startsWith s p = (take (length p) s = p)"

section \<open>Local wall-clock time\<close>

text \<open>
  \<open>new Date(t)\<close> for an epoch instant \<open>t\<close> in milliseconds. Local time is
  \<open>t + tza t\<close>, where \<open>tza\<close> is the host's offset of local time from UTC at that
  instant, in milliseconds. Day 0 of the epoch was a Thursday.
\<close>

definition LocalTime :: "(int \<Rightarrow> int) \<Rightarrow> int \<Rightarrow> int" where
  "LocalTime tza t = t + tza t"

definition getDay :: "(int \<Rightarrow> int) \<Rightarrow> int \<Rightarrow> int" where
  "getDay tza t = (LocalTime tza t div 86400000 + 4) mod 7"

definition getHours :: "(int \<Rightarrow> int) \<Rightarrow> int \<Rightarrow> int" where
  "getHours tza t = (LocalTime tza t div 3600000) mod 24"

definition getMinutes :: "(int \<Rightarrow> int) \<Rightarrow> int \<Rightarrow> int" where
  "getMinutes tza t = (LocalTime tza t div 60000) mod 60"

section \<open>Data model\<close>

datatype storage = Public | Tmp | External

record FileItem =
  f_id :: string
  f_name :: string
  f_mime :: string
  f_size :: nat
  f_storage :: storage
  f_path :: string
  f_url :: string
  f_uploadedAt :: int
  f_durationSeconds :: "real option"

record ScheduleItem =
  s_id :: string
  s_fileId :: string
  s_startAt :: int
  s_endAt :: int
  s_order :: int
  s_days :: "int list option"
  s_startTime :: "string option"
  s_endTime :: "string option"
  s_durationSeconds :: "real option"
  s_muted :: "bool option"

datatype orientation = Landscape | Portrait

record PlayerSettings =
  ps_brightness :: real
  ps_orientation :: orientation
  ps_autoStart :: bool
  defaultImageDuration :: real
  defaultLinkDuration :: real

definition defaultPlayerSettings :: PlayerSettings where
  "defaultPlayerSettings =
     \<lparr>ps_brightness = 100, ps_orientation = Landscape, ps_autoStart = True,
      defaultImageDuration = 10, defaultLinkDuration = 30\<rparr>"

section \<open>Playlist resolver (player page)\<close>

text \<open>\<open>t.split(":")\<close>: always at least one piece.\<close>

fun split_colon :: "string \<Rightarrow> string list" where
  "split_colon [] = [[]]"
| "split_colon (c # cs) =
     (if c = CHR '':'' then [] # split_colon cs
      else (case split_colon cs of [] \<Rightarrow> [[c]] | p # ps \<Rightarrow> (c # p) # ps))"

text \<open>
  \<open>const [h, m] = t.split(":").map(Number); return h * 60 + (m || 0)\<close>.
  A missing second piece is \<open>undefined\<close>, which \<open>||\<close> replaces by \<open>0\<close>.
\<close>

definition toMin :: "(string \<Rightarrow> jsnum) \<Rightarrow> string \<Rightarrow> jsnum" where
  "toMin num t =
     (case map num (split_colon t) of
        [] \<Rightarrow> NaN
      | [h] \<Rightarrow> js_add (js_mul h (Fin 60)) (Fin 0)
      | h # m # _ \<Rightarrow> js_add (js_mul h (Fin 60)) (js_or m (Fin 0)))"

text \<open>Truthiness of an optional string: absent and empty are falsy.\<close>

fun str_truthy :: "string option \<Rightarrow> bool" where
  "str_truthy None = False"
| "str_truthy (Some s) = (s \<noteq> [])"

definition inTimeWindow ::
  "(string \<Rightarrow> jsnum) \<Rightarrow> int \<Rightarrow> string option \<Rightarrow> string option \<Rightarrow> bool" where
  "inTimeWindow num mins start fin =
     (if \<not> str_truthy start \<and> \<not> str_truthy fin then True
      else
        let s = (if str_truthy start then toMin num (the start) else Fin 0);
            e = (if str_truthy fin then toMin num (the fin) else Fin (24 * 60))
        in js_ge (Fin (real_of_int mins)) s \<and> js_le (Fin (real_of_int mins)) e)"

definition minuteOfDay :: "(int \<Rightarrow> int) \<Rightarrow> int \<Rightarrow> int" where
  "minuteOfDay tza now = getHours tza now * 60 + getMinutes tza now"

text \<open>
  The \<open>activePlaylist\<close> memo: three filters, then a sort by \<open>order\<close>
  (\<open>Array.prototype.sort\<close> is stable).
\<close>

definition activePlaylist ::
  "(string \<Rightarrow> jsnum) \<Rightarrow> (int \<Rightarrow> int) \<Rightarrow> int \<Rightarrow> ScheduleItem list \<Rightarrow> ScheduleItem list" where
  "activePlaylist num tza now schedules =
     (let day = getDay tza now;
          mins = minuteOfDay tza now
      in sort_key s_order
           (filter (\<lambda>s. inTimeWindow num mins (s_startTime s) (s_endTime s))
             (filter (\<lambda>s. case s_days s of Some ds \<Rightarrow> day \<in> set ds | None \<Rightarrow> True)
               (filter (\<lambda>s. now \<ge> s_startAt s \<and> now \<le> s_endAt s) schedules))))"

text \<open>
  An entry of the display list: a schedule rule of the active playlist, or, in the
  fallback, an object \<open>{id, fileId, durationSeconds?}\<close> made from a file.
\<close>

datatype displayItem = Rule ScheduleItem | Entry string string "real option"

fun item_fileId :: "displayItem \<Rightarrow> string" where
  "item_fileId (Rule s) = s_fileId s"
| "item_fileId (Entry i fid d) = fid"

fun item_durationSeconds :: "displayItem \<Rightarrow> real option" where
  "item_durationSeconds (Rule s) = s_durationSeconds s"
| "item_durationSeconds (Entry i fid d) = d"

definition fallbackEntry :: "FileItem \<Rightarrow> displayItem" where
  "fallbackEntry f =
     Entry (f_id f) (f_id f)
       (if positive (f_durationSeconds f) then f_durationSeconds f else None)"

text \<open>The \<open>displayList\<close> memo, a function of the active playlist and the files.\<close>

definition displayList :: "ScheduleItem list \<Rightarrow> FileItem list \<Rightarrow> displayItem list" where
  "displayList ap fs = (if length ap = 0 then map fallbackEntry fs else map Rule ap)"

section \<open>The server's store\<close>

text \<open>
  A JavaScript \<open>Map\<close> keeps its entries in insertion order; \<open>set\<close> on a key that is
  present replaces the value in place.
\<close>

fun map_set :: "'k \<Rightarrow> 'v \<Rightarrow> ('k \<times> 'v) list \<Rightarrow> ('k \<times> 'v) list" where
  "map_set k v [] = [(k, v)]"
| "map_set k v ((k', v') # m) = (if k' = k then (k, v) # m else (k', v') # map_set k v m)"




definition map_values :: "('k \<times> 'v) list \<Rightarrow> 'v list" where
  "map_values m = map snd m"

record Store =
  st_files :: "(string \<times> FileItem) list"
  st_schedules :: "(string \<times> ScheduleItem) list"
  st_tokens :: "string list"
  st_playerSettings :: PlayerSettings

definition emptyStore :: Store where
  "emptyStore = \<lparr>st_files = [], st_schedules = [], st_tokens = [],
     st_playerSettings = defaultPlayerSettings\<rparr>"

definition addFile :: "FileItem \<Rightarrow> Store \<Rightarrow> Store" where
  "addFile f st = st\<lparr>st_files := map_set (f_id f) f (st_files st)\<rparr>"








text \<open>\<open>GET /api/files\<close>: the files, newest upload first (the sort is stable).\<close>

definition files_GET :: "Store \<Rightarrow> FileItem list" where
  "files_GET st = sort_key (\<lambda>f. - f_uploadedAt f) (map_values (st_files st))"

text \<open>\<open>GET /api/schedule\<close>: the schedules by ascending \<open>order\<close>.\<close>

definition schedule_GET :: "Store \<Rightarrow> ScheduleItem list" where
  "schedule_GET st = sort_key s_order (map_values (st_schedules st))"


datatype 'a response = Status401 | Status400 | Status404 | OK 'a









section \<open>The HTTP command queue\<close>

text \<open>
  \<open>POST /api/commands\<close>: a body that is not JSON (\<open>None\<close>) is answered with status
  400 and leaves the buffer as it is; otherwise the payload is the body's \<open>data\<close>
  member when it has one, else the body.
\<close>

datatype 'p body = Wrapped 'p | Plain 'p

record 'p command =
  c_ts :: int
  c_payload :: 'p

fun payload_of :: "'p body \<Rightarrow> 'p" where
  "payload_of (Wrapped p) = p"
| "payload_of (Plain p) = p"

definition commands_POST :: "int \<Rightarrow> 'p body option \<Rightarrow> 'p command list \<Rightarrow> int response \<times> 'p command list" where
  "commands_POST now b commands =
     (case b of
        None \<Rightarrow> (Status400, commands)
      | Some bd \<Rightarrow>
          let payload = payload_of bd;
              pushed = commands @ [\<lparr>c_ts = now, c_payload = payload\<rparr>];
              trimmed = (if length pushed > 200 then drop (length pushed - 200) pushed else pushed)
          in (OK now, trimmed))"

definition commands_GET :: "(string \<Rightarrow> jsnum) \<Rightarrow> string option \<Rightarrow> 'p command list \<Rightarrow> 'p command list" where
  "commands_GET num sinceStr commands =
     (let since = (if str_truthy sinceStr then num (the sinceStr) else Fin 0)
      in if js_gt since (Fin 0)
         then filter (\<lambda>c. js_gt (Fin (real_of_int (c_ts c))) since) commands
         else drop (length commands - 20) commands)"

section \<open>Duration resolver\<close>

text \<open>
  The repository holds two copies of the player page. The one that the admin console's
  live preview pairs with reads the server's duration defaults
  (\<open>getEffectiveDuration\<close>); the other one uses the entry's own duration or ten
  seconds (\<open>DEFAULT_IMAGE_LINK_SEC\<close>). Both are modelled; \<open>variant\<close> selects one.
\<close>

datatype variant = Legacy | Enhanced

definition DEFAULT_IMAGE_LINK_SEC :: "displayItem \<Rightarrow> real" where
  "DEFAULT_IMAGE_LINK_SEC item =
     (if positive (item_durationSeconds item) then the (item_durationSeconds item) else 10)"

text \<open>\<open>x || d\<close> on a numeric setting.\<close>

definition or_default :: "real \<Rightarrow> real \<Rightarrow> real" where
  "or_default x d = (if x \<noteq> 0 then x else d)"

definition getEffectiveDuration :: "displayItem \<Rightarrow> FileItem \<Rightarrow> PlayerSettings \<Rightarrow> real" where
  "getEffectiveDuration item file serverSettings =
     (if positive (item_durationSeconds item) then the (item_durationSeconds item)
      else if positive (f_durationSeconds file) then the (f_durationSeconds file)
      else if startsWith (f_mime file) ''image/''
        then or_default (defaultImageDuration serverSettings) 10
      else if startsWith (f_mime file) ''link/''
        then or_default (defaultLinkDuration serverSettings) 30
      else 10)"

text \<open>The delay, in milliseconds, of the advance timer of an image or a link.\<close>

definition imageLinkDelay :: "variant \<Rightarrow> displayItem \<Rightarrow> FileItem \<Rightarrow> PlayerSettings \<Rightarrow> real" where
  "imageLinkDelay v item file serverSettings =
     (case v of
        Legacy \<Rightarrow> DEFAULT_IMAGE_LINK_SEC item * 1000
      | Enhanced \<Rightarrow> max (1 / 10) (getEffectiveDuration item file serverSettings) * 1000)"

text \<open>
  The delay, in milliseconds, that \<open>setBackup\<close> arms for a video whose element
  reports \<open>duration\<close> at that moment.
\<close>

definition naturalDur :: "jsnum \<Rightarrow> real" where
  "naturalDur duration =
     (case duration of Fin r \<Rightarrow> (if 0 < r then r else 30) | _ \<Rightarrow> 30)"

definition setBackup_delay :: "variant \<Rightarrow> displayItem \<Rightarrow> FileItem \<Rightarrow> jsnum \<Rightarrow> real" where
  "setBackup_delay v item file duration =
     (if positive (item_durationSeconds item)
        then max (1 / 10) (the (item_durationSeconds item)) * 1000
      else if v = Enhanced \<and> positive (f_durationSeconds file)
        then max (1 / 10) (the (f_durationSeconds file)) * 1000
      else (naturalDur duration + 1 / 2) * 1000)"

section \<open>Playback sequencer and command interpreter (player page)\<close>

text \<open>
  The player is a React component. Its state is the record \<open>player\<close>: the React
  state the sequencer uses, the timer ref, the browser's pending advance timeouts,
  the pending media event handlers, and what the two video elements report. A
  handler changes the state; React then renders and runs the effects whose
  dependencies changed (\<open>renderPass\<close>, \<open>commit\<close>). What the handlers do to the
  video elements themselves (\<open>pause\<close>, \<open>play\<close>, \<open>src\<close>, preloading), the
  auto-start flag, \<open>localStorage\<close> and the messages exchanged with the admin preview do not
  influence the index or the timers and are left out; the elements' length and
  readiness are inputs (\<open>PageChange\<close>).
\<close>

datatype error = TypeError

datatype tag = TagA | TagB

text \<open>A video element as the sequencer reads it, and the two element refs.\<close>

record video =
  v_duration :: jsnum
  v_readyState :: nat

record tags =
  videoA :: "video option"
  videoB :: "video option"

text \<open>The values of one render that \<open>advance\<close> and \<open>goPrev\<close> close over.\<close>

record closure =
  c_displayList :: "displayItem list"
  c_files :: "FileItem list"
  c_activeIndex :: nat
  c_tag :: tag

text \<open>A pending \<open>window.setTimeout(advance, delay)\<close>.\<close>

record timer =
  t_id :: nat
  t_delay :: real
  t_closure :: closure

text \<open>A pending \<open>loadedmetadata\<close> handler with what its \<open>setBackup\<close> closes over.\<close>

record listener =
  l_item :: displayItem
  l_file :: FileItem
  l_closure :: closure

record player =
  files :: "FileItem list"
  schedules :: "ScheduleItem list"
  playlistMemo :: "ScheduleItem list"
  activeIndex :: nat
  powered :: bool
  orientationState :: orientation
  brightness :: jsnum
  activeVideoTag :: tag
  serverSettings :: PlayerSettings
  advanceTimerRef :: "nat option"
  timeouts :: "timer list"
  timerSeq :: nat
  metadataListeners :: "listener list"
  canplayListeners :: "nat list"
  page :: tags

definition displayList_of :: "player \<Rightarrow> displayItem list" where
  "displayList_of st = displayList (playlistMemo st) (files st)"

definition closure_of :: "player \<Rightarrow> closure" where
  "closure_of st =
     \<lparr>c_displayList = displayList_of st, c_files = files st,
      c_activeIndex = activeIndex st, c_tag = activeVideoTag st\<rparr>"

text \<open>
  The command handlers are installed by the mount effect (dependency list \<open>[]\<close>),
  so the \<open>applyCommand\<close> they call is the one of the first render, whose
  \<open>advance\<close> and \<open>goPrev\<close> see the first render's values.
\<close>

definition mount_closure :: closure where
  "mount_closure = \<lparr>c_displayList = [], c_files = [], c_activeIndex = 0, c_tag = TagA\<rparr>"

definition getActiveVideo :: "tag \<Rightarrow> tags \<Rightarrow> video option" where
  "getActiveVideo t d = (if t = TagA then videoA d else videoB d)"

definition getIdleVideo :: "tag \<Rightarrow> tags \<Rightarrow> video option" where
  "getIdleVideo t d = (if t = TagA then videoB d else videoA d)"

definition flip_tag :: "tag \<Rightarrow> tag" where
  "flip_tag t = (if t = TagA then TagB else TagA)"

text \<open>\<open>xs[i]\<close>: \<open>undefined\<close> out of range.\<close>

definition js_nth :: "'a list \<Rightarrow> nat \<Rightarrow> 'a option" where
  "js_nth xs i = (if i < length xs then Some (xs ! i) else None)"

definition clearAdvanceTimer :: "player \<Rightarrow> player" where
  "clearAdvanceTimer st =
     (case advanceTimerRef st of
        None \<Rightarrow> st
      | Some i \<Rightarrow>
          if i \<noteq> 0
          then st\<lparr>timeouts := filter (\<lambda>t. t_id t \<noteq> i) (timeouts st), advanceTimerRef := None\<rparr>
          else st)"

text \<open>\<open>advanceTimerRef.current = window.setTimeout(advance, delay)\<close>; ids are positive.\<close>

definition armAdvanceTimer :: "closure \<Rightarrow> real \<Rightarrow> player \<Rightarrow> player" where
  "armAdvanceTimer cl delay st =
     (let i = Suc (timerSeq st)
      in st\<lparr>timeouts := timeouts st @ [\<lparr>t_id = i, t_delay = delay, t_closure = cl\<rparr>],
            timerSeq := i, advanceTimerRef := Some i\<rparr>)"

definition setBackup :: "variant \<Rightarrow> closure \<Rightarrow> displayItem \<Rightarrow> FileItem \<Rightarrow> jsnum \<Rightarrow> player \<Rightarrow> player" where
  "setBackup v cl item file duration st =
     armAdvanceTimer cl (setBackup_delay v item file duration) (clearAdvanceTimer st)"

definition isVideo :: "FileItem option \<Rightarrow> bool" where
  "isVideo f = (case f of None \<Rightarrow> False | Some x \<Rightarrow> startsWith (f_mime x) ''video/'')"

text \<open>
  The switch to index \<open>idx\<close> that \<open>advance\<close> and \<open>goPrev\<close> end with: at once for an
  image or a link; for a video, at once when the idle element can render a frame,
  otherwise when it reports \<open>canplay\<close>.
\<close>

definition switchTo :: "closure \<Rightarrow> nat \<Rightarrow> player \<Rightarrow> player" where
  "switchTo cl idx st =
     (let item = js_nth (c_displayList cl) idx;
          file = (case item of None \<Rightarrow> None
                  | Some it \<Rightarrow> find (\<lambda>f. f_id f = item_fileId it) (c_files cl))
      in if isVideo file
         then (case getIdleVideo (c_tag cl) (page st) of
                 Some idle \<Rightarrow>
                   if v_readyState idle \<ge> 3
                   then st\<lparr>activeVideoTag := flip_tag (activeVideoTag st), activeIndex := idx\<rparr>
                   else st\<lparr>canplayListeners := canplayListeners st @ [idx]\<rparr>
               | None \<Rightarrow> st\<lparr>activeIndex := idx\<rparr>)
         else st\<lparr>activeIndex := idx\<rparr>)"

definition advance :: "closure \<Rightarrow> player \<Rightarrow> player" where
  "advance cl st =
     (if length (c_displayList cl) = 0 then st
      else switchTo cl ((c_activeIndex cl + 1) mod length (c_displayList cl)) st)"

definition goPrev :: "closure \<Rightarrow> player \<Rightarrow> player" where
  "goPrev cl st =
     (if length (c_displayList cl) = 0 then st
      else switchTo cl
             ((c_activeIndex cl + length (c_displayList cl) - 1) mod length (c_displayList cl)) st)"

text \<open>
  A message of the command channel, and \<open>applyCommand\<close>. On \<open>power\<close> with a value
  other than \<open>'off'\<close> the handler sets \<open>powered\<close> and calls
  \<open>setActiveIndex((idx) => idx)\<close>, an update that leaves the index as it is.
\<close>

record msg =
  m_type :: string
  m_action :: string
  m_value :: jsval

definition applyCommand :: "(string \<Rightarrow> jsnum) \<Rightarrow> msg \<Rightarrow> player \<Rightarrow> player" where
  "applyCommand num m st =
     (if m_type m \<noteq> ''command'' then st
      else
        let st1 = (if m_action m = ''power''
                   then (let turnOn = (m_value m \<noteq> JStr ''off'')
                         in if \<not> turnOn then clearAdvanceTimer (st\<lparr>powered := False\<rparr>)
                            else st\<lparr>powered := True\<rparr>)
                   else st);
            st2 = (if m_action m = ''orientation''
                   then st1\<lparr>orientationState :=
                          (if m_value m = JStr ''portrait'' then Portrait else Landscape)\<rparr>
                   else st1);
            st3 = (if m_action m = ''brightness''
                   then st2\<lparr>brightness :=
                          Math_max (Fin 0) (Math_min (Fin 200) (Number num (m_value m)))\<rparr>
                   else st2);
            st4 = (if m_action m = ''next'' then advance mount_closure st3 else st3);
            st5 = (if m_action m = ''prev'' then goPrev mount_closure st4 else st4)
        in st5)"

text \<open>
  The \<open>currentFile\<close> memo. The callback of \<open>files.find\<close> reads \<open>.fileId\<close> of
  \<open>displayList[activeIndex]\<close> without a guard, which throws when the index is past
  the end of the list; with no files the callback is never called.
\<close>

definition currentFile :: "player \<Rightarrow> error + FileItem option" where
  "currentFile st =
     (if length (displayList_of st) = 0 then Inr None
      else case js_nth (displayList_of st) (activeIndex st) of
             None \<Rightarrow> (if files st = [] then Inr None else Inl TypeError)
           | Some item \<Rightarrow> Inr (find (\<lambda>f. f_id f = item_fileId item) (files st)))"

text \<open>The effect that runs when the current item, the list length or the power changes.\<close>

definition itemEffect :: "variant \<Rightarrow> player \<Rightarrow> error + player" where
  "itemEffect v st =
     (let st1 = clearAdvanceTimer st;
          cl = closure_of st
      in if \<not> powered st1 then Inr st1
         else if length (displayList_of st1) = 0 then Inr st1
         else case js_nth (displayList_of st1) (activeIndex st1) of
           None \<Rightarrow> (if files st1 = [] then Inr st1 else Inl TypeError)
         | Some item \<Rightarrow>
            (case find (\<lambda>f. f_id f = item_fileId item) (files st1) of
               None \<Rightarrow> Inr st1
             | Some file \<Rightarrow>
                 if startsWith (f_mime file) ''image/'' \<or> startsWith (f_mime file) ''link/''
                 then Inr (armAdvanceTimer cl (imageLinkDelay v item file (serverSettings st1)) st1)
                 else if startsWith (f_mime file) ''video/''
                 then (case getActiveVideo (activeVideoTag st1) (page st1) of
                         None \<Rightarrow> Inr st1
                       | Some activeVideo \<Rightarrow>
                           if isFinite (v_duration activeVideo) \<and> js_gt (v_duration activeVideo) (Fin 0)
                           then Inr (setBackup v cl item file (v_duration activeVideo) st1)
                           else Inr (st1\<lparr>metadataListeners := metadataListeners st1 @
                                      [\<lparr>l_item = item, l_file = file, l_closure = cl\<rparr>]\<rparr>))
                 else Inr (armAdvanceTimer cl 10000 st1)))"

text \<open>The dependency lists of the item effect and of the effect that follows it.\<close>

definition currentItem :: "player \<Rightarrow> displayItem option" where
  "currentItem st = js_nth (displayList_of st) (activeIndex st)"

definition itemDeps :: "player \<Rightarrow> nat \<times> nat \<times> bool \<times> string option \<times> real option" where
  "itemDeps st =
     (activeIndex st, length (displayList_of st), powered st,
      map_option item_fileId (currentItem st),
      (case currentItem st of None \<Rightarrow> None | Some it \<Rightarrow> item_durationSeconds it))"

text \<open>
  One render followed by its effects: the \<open>currentFile\<close> memo, the item effect when
  its dependencies differ from those of the previous render, and the effect that
  resets the index to \<open>0\<close> when the list is not empty and the current file is missing
  (dependencies: \<open>currentFile\<close> and the list length).
\<close>

definition renderPass :: "variant \<Rightarrow> player \<Rightarrow> player \<Rightarrow> error + player" where
  "renderPass v prev st =
     (case currentFile st of
        Inl e \<Rightarrow> Inl e
      | Inr cf \<Rightarrow>
          (case (if itemDeps prev \<noteq> itemDeps st then itemEffect v st else Inr st) of
             Inl e \<Rightarrow> Inl e
           | Inr st1 \<Rightarrow>
               if (currentFile prev, length (displayList_of prev)) \<noteq> (Inr cf, length (displayList_of st))
                  \<and> length (displayList_of st) \<noteq> 0 \<and> cf = None
               then Inr (st1\<lparr>activeIndex := 0\<rparr>)
               else Inr st1))"

text \<open>
  A state change made by a handler, rendered until nothing changes: the reset to
  index \<open>0\<close> causes one more render, after which the index stays.
\<close>

definition commit :: "variant \<Rightarrow> player \<Rightarrow> player \<Rightarrow> error + player" where
  "commit v prev st =
     (case renderPass v prev st of
        Inl e \<Rightarrow> Inl e
      | Inr st1 \<Rightarrow> if activeIndex st1 = activeIndex st then Inr st1 else renderPass v st st1)"

text \<open>
  The events of a mounted player. \<open>Command\<close> is a message of the WebSocket: its
  handler applies it and React renders. \<open>Polled\<close> is the answer of one poll of the
  HTTP command queue: one callback applies all its commands in order, and React
  (version 18, which batches the state updates made in one callback) renders once
  after the callback.
\<close>

datatype event =
    Command msg
  | Polled "msg list"
  | TimerFired nat
  | VideoEnded
  | LoadedMetadata nat jsnum
  | CanPlay nat
  | Loaded "FileItem list option" "ScheduleItem list option" "PlayerSettings option" int
  | PageChange tags
  | Unmount

definition remove_nth :: "nat \<Rightarrow> 'a list \<Rightarrow> 'a list" where
  "remove_nth k xs = take k xs @ drop (Suc k) xs"

definition load :: "(string \<Rightarrow> jsnum) \<Rightarrow> (int \<Rightarrow> int) \<Rightarrow> FileItem list option \<Rightarrow> ScheduleItem list option \<Rightarrow> PlayerSettings option \<Rightarrow> int \<Rightarrow> player \<Rightarrow> player" where
  "load num tza fs ss settings now st =
     (let st1 = (case fs of None \<Rightarrow> st | Some f \<Rightarrow> st\<lparr>files := f\<rparr>);
          st2 = (case ss of None \<Rightarrow> st1
                 | Some s \<Rightarrow> st1\<lparr>schedules := s, playlistMemo := activePlaylist num tza now s\<rparr>);
          st3 = (case settings of None \<Rightarrow> st2
                 | Some x \<Rightarrow> st2\<lparr>brightness := Fin (ps_brightness x),
                                orientationState := ps_orientation x, serverSettings := x\<rparr>)
      in st3)"

definition step :: "variant \<Rightarrow> (string \<Rightarrow> jsnum) \<Rightarrow> (int \<Rightarrow> int) \<Rightarrow> event \<Rightarrow> player \<Rightarrow> error + player" where
  "step v num tza ev st =
     (case ev of
        Command m \<Rightarrow> commit v st (applyCommand num m st)
      | Polled ms \<Rightarrow> commit v st (foldl (\<lambda>s m. applyCommand num m s) st ms)
      | TimerFired i \<Rightarrow>
          (case find (\<lambda>t. t_id t = i) (timeouts st) of
             None \<Rightarrow> Inr st
           | Some t \<Rightarrow>
               commit v st (advance (t_closure t) (st\<lparr>timeouts := filter (\<lambda>t. t_id t \<noteq> i) (timeouts st)\<rparr>)))
      | VideoEnded \<Rightarrow> commit v st (advance (closure_of st) st)
      | LoadedMetadata k duration \<Rightarrow>
          (case js_nth (metadataListeners st) k of
             None \<Rightarrow> Inr st
           | Some l \<Rightarrow>
               Inr (setBackup v (l_closure l) (l_item l) (l_file l) duration
                      (st\<lparr>metadataListeners := remove_nth k (metadataListeners st)\<rparr>)))
      | CanPlay k \<Rightarrow>
          (case js_nth (canplayListeners st) k of
             None \<Rightarrow> Inr st
           | Some idx \<Rightarrow>
               commit v st (st\<lparr>canplayListeners := remove_nth k (canplayListeners st),
                                activeVideoTag := flip_tag (activeVideoTag st), activeIndex := idx\<rparr>))
      | Loaded fs ss settings now \<Rightarrow> commit v st (load num tza fs ss settings now st)
      | PageChange d \<Rightarrow> Inr (st\<lparr>page := d\<rparr>)
      | Unmount \<Rightarrow> Inr (clearAdvanceTimer st))"

fun run :: "variant \<Rightarrow> (string \<Rightarrow> jsnum) \<Rightarrow> (int \<Rightarrow> int) \<Rightarrow> event list \<Rightarrow> player \<Rightarrow> error + player" where
  "run v num tza [] st = Inr st"
| "run v num tza (ev # evs) st =
     (case step v num tza ev st of Inl e \<Rightarrow> Inl e | Inr st1 \<Rightarrow> run v num tza evs st1)"

text \<open>The player after its first render and mount effects: nothing loaded yet.\<close>

definition initial :: player where
  "initial =
     \<lparr>files = [], schedules = [], playlistMemo = [], activeIndex = 0, powered = True,
      orientationState = Landscape, brightness = Fin 100, activeVideoTag = TagA,
      serverSettings = defaultPlayerSettings, advanceTimerRef = None, timeouts = [],
      timerSeq = 0, metadataListeners = [], canplayListeners = [],
      page = \<lparr>videoA = None, videoB = None\<rparr>\<rparr>"

text \<open>At most one advance timer is pending, and it is the one the ref holds.\<close>

definition timer_inv :: "player \<Rightarrow> bool" where
  "timer_inv st =
     (timeouts st = [] \<or>
      (\<exists>t. timeouts st = [t] \<and> advanceTimerRef st = Some (t_id t) \<and> 0 < t_id t))"

section \<open>Example data\<close>

definition exRule :: ScheduleItem where
  "exRule = \<lparr>s_id = ''r1'', s_fileId = ''a'', s_startAt = 0, s_endAt = 3600000, s_order = 0,
     s_days = Some [4], s_startTime = Some ''00:00'', s_endTime = Some ''00:30'',
     s_durationSeconds = None, s_muted = None\<rparr>"

text \<open>A rule for Thursdays and Fridays, 09:30 to 17:00, during the first week of the epoch.\<close>

definition exOffice :: ScheduleItem where
  "exOffice = \<lparr>s_id = ''r2'', s_fileId = ''a'', s_startAt = 0, s_endAt = 604800000, s_order = 0,
     s_days = Some [4, 5], s_startTime = Some ''09:30'', s_endTime = Some ''17:00'',
     s_durationSeconds = None, s_muted = None\<rparr>"

definition exImage :: "string \<Rightarrow> int \<Rightarrow> FileItem" where
  "exImage i t = \<lparr>f_id = i, f_name = i, f_mime = ''image/png'', f_size = 1, f_storage = Public,
     f_path = ''/var/lib/signage/uploads/'' @ i, f_url = ''/uploads/'' @ i, f_uploadedAt = t,
     f_durationSeconds = None\<rparr>"

definition exLink :: "string \<Rightarrow> int \<Rightarrow> FileItem" where
  "exLink i t = \<lparr>f_id = i, f_name = i, f_mime = ''link/external'', f_size = 0,
     f_storage = External, f_path = [], f_url = ''https://example.org/'', f_uploadedAt = t,
     f_durationSeconds = None\<rparr>"

definition exVideo :: "string \<Rightarrow> int \<Rightarrow> FileItem" where
  "exVideo i t = \<lparr>f_id = i, f_name = i, f_mime = ''video/mp4'', f_size = 1, f_storage = Public,
     f_path = ''/var/lib/signage/uploads/'' @ i, f_url = ''/uploads/'' @ i, f_uploadedAt = t,
     f_durationSeconds = None\<rparr>"



definition power_off :: msg where
  "power_off = \<lparr>m_type = ''command'', m_action = ''power'', m_value = JStr ''off''\<rparr>"

definition power_on :: msg where
  "power_on = \<lparr>m_type = ''command'', m_action = ''power'', m_value = JStr ''on''\<rparr>"

text \<open>The delays of the pending advance timers of a run, when it ended without an error.\<close>

definition pendingDelays :: "error + player \<Rightarrow> real list option" where
  "pendingDelays r = (case r of Inl e \<Rightarrow> None | Inr st \<Rightarrow> Some (map t_delay (timeouts st)))"

definition brightness_no_value :: msg where
  "brightness_no_value = \<lparr>m_type = ''command'', m_action = ''brightness'', m_value = JUndefined\<rparr>"

text \<open>The brightness after a run, when it ended without an error.\<close>

definition brightnessAfter :: "error + player \<Rightarrow> jsnum option" where
  "brightnessAfter r = (case r of Inl e \<Rightarrow> None | Inr st \<Rightarrow> Some (brightness st))"

definition exTags :: "jsnum \<Rightarrow> tags" where
  "exTags d = \<lparr>videoA = Some \<lparr>v_duration = d, v_readyState = 0\<rparr>, videoB = None\<rparr>"

text \<open>The first load of two images, and of a video followed by an image (newest first).\<close>

definition exTwoImages :: event where
  "exTwoImages = Loaded (Some [exImage ''b'' 2, exImage ''a'' 1]) (Some []) None 0"

definition exVideoFirst :: event where
  "exVideoFirst = Loaded (Some [exVideo ''v'' 2, exImage ''a'' 1]) (Some []) None 0"

text \<open>
  What a run ended with, when it ended without an error: the power state, the index,
  the timer ref and the delays of the pending advance timers.
\<close>

definition outcome :: "error + player \<Rightarrow> (bool \<times> nat \<times> nat option \<times> real list) option" where
  "outcome r =
     (case r of Inl e \<Rightarrow> None
      | Inr st \<Rightarrow> Some (powered st, activeIndex st, advanceTimerRef st, map t_delay (timeouts st)))"

section \<open>Playlist resolver: properties\<close>

lemma minuteOfDay_range: "0 \<le> minuteOfDay tza now \<and> minuteOfDay tza now \<le> 1439"
proof -
  have h: "0 \<le> getHours tza now \<and> getHours tza now \<le> 23"
    by (simp add: getHours_def)
  have m: "0 \<le> getMinutes tza now \<and> getMinutes tza now \<le> 59"
    by (simp add: getMinutes_def)
  show ?thesis using h m by (simp add: minuteOfDay_def)
qed

lemma inTimeWindow_bounds:
  assumes "0 \<le> mins" and "mins \<le> 1439"
  shows "inTimeWindow num mins start fin \<longleftrightarrow>
           (\<forall>t. start = Some t \<and> t \<noteq> [] \<longrightarrow> js_le (toMin num t) (Fin (real_of_int mins))) \<and>
           (\<forall>t. fin = Some t \<and> t \<noteq> [] \<longrightarrow> js_le (Fin (real_of_int mins)) (toMin num t))"
  using assms
  by (cases start; cases fin) (auto simp: inTimeWindow_def js_ge_def Let_def)

lemma split_colon_plain: "CHR '':'' \<notin> set s \<Longrightarrow> split_colon s = [s]"
  by (induction s) auto

lemma split_colon_hm:
  "CHR '':'' \<notin> set h \<Longrightarrow> split_colon (h @ CHR '':'' # m) = h # split_colon m"
  by (induction h) auto

lemma toMin_hm:
  assumes "CHR '':'' \<notin> set h" and "CHR '':'' \<notin> set m" and "num h = Fin a" and "num m = Fin b"
  shows "toMin num (h @ CHR '':'' # m) = Fin (a * 60 + b)"
  using assms by (simp add: toMin_def split_colon_hm split_colon_plain js_or_def)

lemma toMin_h:
  assumes "CHR '':'' \<notin> set h" and "num h = Fin a"
  shows "toMin num h = Fin (a * 60)"
  using assms by (simp add: toMin_def split_colon_plain)

lemma toMin_unreadable:
  assumes "CHR '':'' \<notin> set h" and "num h = NaN"
  shows "toMin num (h @ CHR '':'' # m) = NaN"
  using assms by (cases "split_colon m") (simp_all add: toMin_def split_colon_hm)

lemma minuteOfDay_eq: "minuteOfDay tza now = ((now + tza now) div 60000) mod 1440"
proof -
  define M where "M = (now + tza now) div 60000"
  have d: "(now + tza now) div 3600000 = M div 60"
    unfolding M_def using zdiv_zmult2_eq [of 60 "now + tza now" 60000] by simp
  have m: "M mod 1440 = 60 * (M div 60 mod 24) + M mod 60"
    using zmod_zmult2_eq [of 24 M 60] by simp
  show ?thesis
    using d m by (simp add: minuteOfDay_def getHours_def getMinutes_def LocalTime_def M_def)
qed

lemma getDay_eq: "getDay tza now = ((now + tza now) div 86400000 + 4) mod 7"
  by (simp add: getDay_def LocalTime_def)

lemma activePlaylist_filter:
  "R \<in> set (activePlaylist num tza now rules) \<longleftrightarrow>
     R \<in> set rules \<and>
     s_startAt R \<le> now \<and> now \<le> s_endAt R \<and>
     (\<forall>ds. s_days R = Some ds \<longrightarrow> getDay tza now \<in> set ds) \<and>
     (\<forall>t. s_startTime R = Some t \<and> t \<noteq> [] \<longrightarrow>
          js_le (toMin num t) (Fin (real_of_int (minuteOfDay tza now)))) \<and>
     (\<forall>t. s_endTime R = Some t \<and> t \<noteq> [] \<longrightarrow>
          js_le (Fin (real_of_int (minuteOfDay tza now))) (toMin num t))"
proof -
  have w: "inTimeWindow num (minuteOfDay tza now) (s_startTime R) (s_endTime R) \<longleftrightarrow>
      (\<forall>t. s_startTime R = Some t \<and> t \<noteq> [] \<longrightarrow>
          js_le (toMin num t) (Fin (real_of_int (minuteOfDay tza now)))) \<and>
      (\<forall>t. s_endTime R = Some t \<and> t \<noteq> [] \<longrightarrow>
          js_le (Fin (real_of_int (minuteOfDay tza now))) (toMin num t))"
    using minuteOfDay_range [of tza now] by (intro inTimeWindow_bounds) auto
  have d: "(case s_days R of Some ds \<Rightarrow> getDay tza now \<in> set ds | None \<Rightarrow> True) \<longleftrightarrow>
      (\<forall>ds. s_days R = Some ds \<longrightarrow> getDay tza now \<in> set ds)"
    by (cases "s_days R") auto
  have "R \<in> set (activePlaylist num tza now rules) \<longleftrightarrow>
      R \<in> set rules \<and> s_startAt R \<le> now \<and> now \<le> s_endAt R \<and>
      (case s_days R of Some ds \<Rightarrow> getDay tza now \<in> set ds | None \<Rightarrow> True) \<and>
      inTimeWindow num (minuteOfDay tza now) (s_startTime R) (s_endTime R)"
    by (auto simp: activePlaylist_def Let_def)
  then show ?thesis using w d by blast
qed

text \<open>
  C1. A schedule rule is in the playlist resolved at instant \<open>now\<close> exactly when
  \<open>now\<close> lies in its inclusive window \<open>[startAt, endAt]\<close>, its \<open>days\<close> are unset or
  contain the local weekday of \<open>now\<close> (0 = Sunday), and the local minute of the day
  lies within the rule's daily clock window, both ends inclusive; a bound of the
  clock window that is unset (or empty) does not constrain. For a rule whose two
  clock times are written \<open>h:m\<close>, with \<open>h\<close> and \<open>m\<close> reading as the numbers \<open>a\<close> and
  \<open>b\<close>, the clock window is \<open>a1 * 60 + b1 \<le> minute \<le> a2 * 60 + b2\<close>, where the
  minute of the day is that of local time, \<open>((now + tza now) div 60000) mod 1440\<close>,
  and the weekday is \<open>((now + tza now) div 86400000 + 4) mod 7\<close>. A time without
  a minute part reads as the full hour; a time whose hour does not read as a number
  gives NaN, and then the rule is never in the playlist.
\<close>

theorem activePlaylist_member_iff:
  "(R \<in> set (activePlaylist num tza now rules) \<longleftrightarrow>
     R \<in> set rules \<and>
     s_startAt R \<le> now \<and> now \<le> s_endAt R \<and>
     (\<forall>ds. s_days R = Some ds \<longrightarrow> getDay tza now \<in> set ds) \<and>
     (\<forall>t. s_startTime R = Some t \<and> t \<noteq> [] \<longrightarrow>
          js_le (toMin num t) (Fin (real_of_int (minuteOfDay tza now)))) \<and>
     (\<forall>t. s_endTime R = Some t \<and> t \<noteq> [] \<longrightarrow>
          js_le (Fin (real_of_int (minuteOfDay tza now))) (toMin num t))) \<and>
   (s_startTime R = Some (h1 @ CHR '':'' # m1) \<and> s_endTime R = Some (h2 @ CHR '':'' # m2) \<and>
    CHR '':'' \<notin> set (h1 @ m1 @ h2 @ m2) \<and>
    num h1 = Fin a1 \<and> num m1 = Fin b1 \<and> num h2 = Fin a2 \<and> num m2 = Fin b2 \<longrightarrow>
      (R \<in> set (activePlaylist num tza now rules) \<longleftrightarrow>
         R \<in> set rules \<and>
         s_startAt R \<le> now \<and> now \<le> s_endAt R \<and>
         (\<forall>ds. s_days R = Some ds \<longrightarrow> ((now + tza now) div 86400000 + 4) mod 7 \<in> set ds) \<and>
         a1 * 60 + b1 \<le> real_of_int (((now + tza now) div 60000) mod 1440) \<and>
         real_of_int (((now + tza now) div 60000) mod 1440) \<le> a2 * 60 + b2)) \<and>
   (CHR '':'' \<notin> set h \<and> CHR '':'' \<notin> set m \<and> num h = Fin a \<and> num m = Fin b \<longrightarrow>
      toMin num (h @ CHR '':'' # m) = Fin (a * 60 + b)) \<and>
   (CHR '':'' \<notin> set h \<and> num h = Fin a \<longrightarrow> toMin num h = Fin (a * 60)) \<and>
   (CHR '':'' \<notin> set h \<and> num h = NaN \<longrightarrow> toMin num (h @ CHR '':'' # m) = NaN) \<and>
   (s_startTime R = Some (h @ CHR '':'' # m) \<and> CHR '':'' \<notin> set h \<and> num h = NaN \<longrightarrow>
      R \<notin> set (activePlaylist num tza now rules)) \<and>
   minuteOfDay tza now = ((now + tza now) div 60000) mod 1440 \<and>
   getDay tza now = ((now + tza now) div 86400000 + 4) mod 7"
proof -
  have g: "R \<in> set (activePlaylist num tza now rules) \<longleftrightarrow>
     R \<in> set rules \<and>
     s_startAt R \<le> now \<and> now \<le> s_endAt R \<and>
     (\<forall>ds. s_days R = Some ds \<longrightarrow> getDay tza now \<in> set ds) \<and>
     (\<forall>t. s_startTime R = Some t \<and> t \<noteq> [] \<longrightarrow>
          js_le (toMin num t) (Fin (real_of_int (minuteOfDay tza now)))) \<and>
     (\<forall>t. s_endTime R = Some t \<and> t \<noteq> [] \<longrightarrow>
          js_le (Fin (real_of_int (minuteOfDay tza now))) (toMin num t))"
    by (rule activePlaylist_filter)
  have c: "R \<in> set (activePlaylist num tza now rules) \<longleftrightarrow>
         R \<in> set rules \<and>
         s_startAt R \<le> now \<and> now \<le> s_endAt R \<and>
         (\<forall>ds. s_days R = Some ds \<longrightarrow> ((now + tza now) div 86400000 + 4) mod 7 \<in> set ds) \<and>
         a1 * 60 + b1 \<le> real_of_int (((now + tza now) div 60000) mod 1440) \<and>
         real_of_int (((now + tza now) div 60000) mod 1440) \<le> a2 * 60 + b2"
    if "s_startTime R = Some (h1 @ CHR '':'' # m1)" and "s_endTime R = Some (h2 @ CHR '':'' # m2)"
      and "CHR '':'' \<notin> set (h1 @ m1 @ h2 @ m2)"
      and "num h1 = Fin a1" and "num m1 = Fin b1" and "num h2 = Fin a2" and "num m2 = Fin b2"
  proof -
    have s: "toMin num (h1 @ CHR '':'' # m1) = Fin (a1 * 60 + b1)"
      using that by (intro toMin_hm) simp_all
    have e: "toMin num (h2 @ CHR '':'' # m2) = Fin (a2 * 60 + b2)"
      using that by (intro toMin_hm) simp_all
    show ?thesis
      unfolding g using that(1,2) by (auto simp: s e minuteOfDay_eq getDay_eq)
  qed
  have u: "R \<notin> set (activePlaylist num tza now rules)"
    if "s_startTime R = Some (h @ CHR '':'' # m)" and "CHR '':'' \<notin> set h" and "num h = NaN"
    unfolding g using that toMin_unreadable [of h num m] by simp
  show ?thesis
    using g c u toMin_hm [of h m num a b] toMin_h [of h num a] toMin_unreadable [of h num m]
      minuteOfDay_eq [of tza now] getDay_eq [of tza now]
    by blast
qed

theorem activePlaylist_member_iff_witness:
  "exOffice \<in> set (activePlaylist decimal (\<lambda>t. 19800000) 14400000 [exOffice]) \<and>
   exOffice \<notin> set (activePlaylist decimal (\<lambda>t. 19800000) 14340000 [exOffice]) \<and>
   exOffice \<in> set (activePlaylist decimal (\<lambda>t. 19800000) 41400000 [exOffice]) \<and>
   exOffice \<notin> set (activePlaylist decimal (\<lambda>t. 19800000) 41460000 [exOffice]) \<and>
   exOffice \<in> set (activePlaylist decimal (\<lambda>t. 19800000) 100800000 [exOffice]) \<and>
   exOffice \<notin> set (activePlaylist decimal (\<lambda>t. 19800000) 187200000 [exOffice])"
proof -
  have n: "decimal ''09'' = Fin 9 \<and> decimal ''30'' = Fin 30 \<and> decimal ''17'' = Fin 17 \<and>
      decimal ''00'' = Fin 0"
    by (simp add: decimal_def digit_val_def)
  note k = activePlaylist_member_iff [where R = exOffice and num = decimal
        and tza = "\<lambda>t. 19800000" and rules = "[exOffice]"
        and ?h1.0 = "''09''" and ?m1.0 = "''30''" and ?h2.0 = "''17''" and ?m2.0 = "''00''"
        and ?a1.0 = 9 and ?b1.0 = 30 and ?a2.0 = 17 and ?b2.0 = 0
        and h = "''09''" and m = "''30''" and a = 9 and b = 30,
        THEN conjunct2, THEN conjunct1]
  have c: "exOffice \<in> set (activePlaylist decimal (\<lambda>t. 19800000) now [exOffice]) \<longleftrightarrow>
      0 \<le> now \<and> now \<le> 604800000 \<and>
      ((now + 19800000) div 86400000 + 4) mod 7 \<in> {4, 5} \<and>
      570 \<le> ((now + 19800000) div 60000) mod 1440 \<and>
      ((now + 19800000) div 60000) mod 1440 \<le> 1020" for now
    using n k [of now] by (simp add: exOffice_def)
  show ?thesis by (simp add: c)
qed


section \<open>Fallback display list: properties\<close>

lemma files_GET_descending:
  "sorted_wrt (\<lambda>a b. f_uploadedAt a \<ge> f_uploadedAt b) (files_GET st)"
proof -
  have "sorted (map (\<lambda>f. - f_uploadedAt f) (files_GET st))"
    by (simp add: files_GET_def)
  then show ?thesis by (simp add: sorted_map)
qed

lemma files_GET_stable:
  "filter (\<lambda>f. f_uploadedAt f = k) (files_GET st) =
   filter (\<lambda>f. f_uploadedAt f = k) (map_values (st_files st))"
proof -
  have "filter (\<lambda>f. - f_uploadedAt f = - k) (files_GET st) =
        filter (\<lambda>f. - f_uploadedAt f = - k) (map_values (st_files st))"
    unfolding files_GET_def by (rule sort_key_stable)
  then show ?thesis by simp
qed

text \<open>
  C3, with the order as specified: the fallback list would follow the registry's
  insertion order. With image \<open>a\<close> uploaded before image \<open>b\<close>, the player lists \<open>b\<close>
  first.
\<close>

theorem fallback_insertion_order_counterexample:
  "displayList [] (files_GET (addFile (exImage ''b'' 2000) (addFile (exImage ''a'' 1000) emptyStore)))
   \<noteq> map fallbackEntry
        (map_values (st_files (addFile (exImage ''b'' 2000) (addFile (exImage ''a'' 1000) emptyStore))))"
  by (simp add: displayList_def files_GET_def addFile_def emptyStore_def map_values_def
        fallbackEntry_def exImage_def)

text \<open>
  C3, amended. The fallback is used exactly when the filtered rule list \<open>ap\<close> is
  empty. It has one entry per file of the registry, each carrying the file's id and
  the file's own duration when that is a positive number, in the order of the files
  listing: newest upload first, files with the same upload time in registry insertion
  order. With no rules and no files the list is empty.
\<close>

theorem displayList_fallback:
  "(length ap = 0 \<longrightarrow>
      displayList ap (files_GET st) =
        map fallbackEntry (sort_key (\<lambda>f. - f_uploadedAt f) (map_values (st_files st)))) \<and>
   (length ap \<noteq> 0 \<longrightarrow> displayList ap (files_GET st) = map Rule ap) \<and>
   (length ap = 0 \<and> st_files st = [] \<longrightarrow> displayList ap (files_GET st) = []) \<and>
   item_fileId (fallbackEntry f) = f_id f \<and>
   item_durationSeconds (fallbackEntry f) =
     (if positive (f_durationSeconds f) then f_durationSeconds f else None) \<and>
   mset (files_GET st) = mset (map_values (st_files st)) \<and>
   sorted_wrt (\<lambda>a b. f_uploadedAt a \<ge> f_uploadedAt b) (files_GET st) \<and>
   filter (\<lambda>f. f_uploadedAt f = k) (files_GET st) =
     filter (\<lambda>f. f_uploadedAt f = k) (map_values (st_files st))"
proof -
  have "mset (files_GET st) = mset (map_values (st_files st))"
    by (simp add: files_GET_def)
  moreover have "st_files st = [] \<Longrightarrow> files_GET st = []"
    by (simp add: files_GET_def map_values_def)
  ultimately show ?thesis
    using files_GET_descending [of st] files_GET_stable [of k st]
    by (simp add: displayList_def fallbackEntry_def files_GET_def)
qed

theorem displayList_fallback_witness:
  "displayList [] (files_GET (addFile (exImage ''b'' 2000) (addFile (exImage ''a'' 1000) emptyStore)))
     = [fallbackEntry (exImage ''b'' 2000), fallbackEntry (exImage ''a'' 1000)] \<and>
   displayList [exRule] (files_GET (addFile (exImage ''a'' 1000) emptyStore)) = [Rule exRule] \<and>
   displayList [] (files_GET emptyStore) = []"
proof -
  let ?S1 = "addFile (exImage ''a'' 1000) emptyStore"
  let ?S2 = "addFile (exImage ''b'' 2000) ?S1"
  have "displayList [] (files_GET ?S2) =
      map fallbackEntry (sort_key (\<lambda>f. - f_uploadedAt f) (map_values (st_files ?S2)))"
    using displayList_fallback [of "[]" ?S2] by simp
  moreover have "sort_key (\<lambda>f. - f_uploadedAt f) (map_values (st_files ?S2)) =
      [exImage ''b'' 2000, exImage ''a'' 1000]"
    by (simp add: addFile_def emptyStore_def map_values_def exImage_def)
  moreover have "displayList [exRule] (files_GET ?S1) = [Rule exRule]"
    using displayList_fallback [of "[exRule]" ?S1] by simp
  moreover have "length ([] :: ScheduleItem list) = 0 \<and> st_files emptyStore = [] \<longrightarrow>
      displayList [] (files_GET emptyStore) = []"
    using displayList_fallback [of "[]" emptyStore] by blast
  then have "displayList [] (files_GET emptyStore) = []"
    by (simp add: emptyStore_def)
  ultimately show ?thesis by simp
qed


section \<open>Store: referential integrity\<close>
























section \<open>Command queue: bound and strict filter\<close>

lemma commands_POST_bound:
  "length cmds \<le> 200 \<Longrightarrow> length (snd (commands_POST now bo cmds)) \<le> 200"
  by (cases bo) (auto simp: commands_POST_def Let_def)

lemma commands_POST_all_bound:
  "length cmds \<le> 200 \<Longrightarrow>
   length (foldl (\<lambda>c p. snd (commands_POST (fst p) (snd p) c)) cmds posts) \<le> 200"
  by (induction posts arbitrary: cmds) (simp_all add: commands_POST_bound)

text \<open>
  C10. After a POST that is accepted the buffer holds at most 200 commands, the
  newest ones (the oldest are dropped first); a POST that is refused leaves it as it
  is, so from the empty buffer every sequence of POSTs stays within the bound. A GET
  whose \<open>since\<close> reads as a positive number \<open>t\<close> returns exactly the buffered
  commands with timestamp greater than \<open>t\<close>, in order; none of them has timestamp
  \<open>t\<close>.
\<close>

theorem command_queue:
  "length (snd (commands_POST now (Some b) cmds)) \<le> 200 \<and>
   snd (commands_POST now (Some b) cmds) =
     drop (Suc (length cmds) - 200) (cmds @ [\<lparr>c_ts = now, c_payload = payload_of b\<rparr>]) \<and>
   snd (commands_POST now None cmds) = cmds \<and>
   length (foldl (\<lambda>c p. snd (commands_POST (fst p) (snd p) c)) [] posts) \<le> 200 \<and>
   (s \<noteq> [] \<and> num s = Fin t \<and> 0 < t \<longrightarrow>
      commands_GET num (Some s) cmds = filter (\<lambda>c. t < real_of_int (c_ts c)) cmds \<and>
      (\<forall>c \<in> set (commands_GET num (Some s) cmds). real_of_int (c_ts c) \<noteq> t))"
proof -
  have "length (foldl (\<lambda>c p. snd (commands_POST (fst p) (snd p) c)) [] posts) \<le> 200"
    by (rule commands_POST_all_bound) simp
  then show ?thesis
    by (auto simp: commands_POST_def commands_GET_def Let_def js_gt_def)
qed

theorem command_queue_witness:
  "snd (commands_POST 5 (Some (Plain ''next'')) []) = [\<lparr>c_ts = 5, c_payload = ''next''\<rparr>] \<and>
   commands_GET decimal (Some ''4'') [\<lparr>c_ts = 5, c_payload = ''next''\<rparr>]
     = [\<lparr>c_ts = 5, c_payload = ''next''\<rparr>] \<and>
   commands_GET decimal (Some ''5'') [\<lparr>c_ts = 5, c_payload = ''next''\<rparr>] = []"
proof -
  have 4: "decimal ''4'' = Fin 4" and 5: "decimal ''5'' = Fin 5"
    by (simp_all add: decimal_def digit_val_def)
  have "snd (commands_POST 5 (Some (Plain ''next'')) []) = [\<lparr>c_ts = 5, c_payload = ''next''\<rparr>]"
    using command_queue [where now = 5 and b = "Plain ''next''" and cmds = "[]" and posts = "[]"
        and num = decimal and s = "''4''" and t = 4] by simp
  moreover have "commands_GET decimal (Some ''4'') [\<lparr>c_ts = 5, c_payload = ''next''\<rparr>]
     = [\<lparr>c_ts = 5, c_payload = ''next''\<rparr>]"
    using 4 command_queue [where num = decimal and s = "''4''" and t = 4 and posts = "[]"
        and now = 5 and b = "Plain ''next''"
        and cmds = "[\<lparr>c_ts = 5, c_payload = ''next''\<rparr>]"] by simp
  moreover have "commands_GET decimal (Some ''5'') [\<lparr>c_ts = 5, c_payload = ''next''\<rparr>] = []"
    using 5 command_queue [where num = decimal and s = "''5''" and t = 5 and posts = "[]"
        and now = 5 and b = "Plain ''next''"
        and cmds = "[\<lparr>c_ts = 5, c_payload = ''next''\<rparr>]"] by simp
  ultimately show ?thesis by simp
qed


section \<open>Sequencer: a single advance timer\<close>

lemma timer_inv_fields:
  "timeouts st' = timeouts st \<Longrightarrow> advanceTimerRef st' = advanceTimerRef st \<Longrightarrow>
   timer_inv st' = timer_inv st"
  by (simp add: timer_inv_def)

lemma clearAdvanceTimer_timeouts: "timer_inv st \<Longrightarrow> timeouts (clearAdvanceTimer st) = []"
  by (auto simp: timer_inv_def clearAdvanceTimer_def split: option.splits)

lemma clearAdvanceTimer_inv: "timer_inv st \<Longrightarrow> timer_inv (clearAdvanceTimer st)"
  using clearAdvanceTimer_timeouts [of st] by (simp add: timer_inv_def)

lemma armAdvanceTimer_inv: "timeouts st = [] \<Longrightarrow> timer_inv (armAdvanceTimer cl d st)"
  by (simp add: timer_inv_def armAdvanceTimer_def Let_def)

lemma arm_after_clear_inv:
  "timer_inv st \<Longrightarrow> timer_inv (armAdvanceTimer cl d (clearAdvanceTimer st))"
  by (simp add: armAdvanceTimer_inv clearAdvanceTimer_timeouts)

lemma setBackup_inv: "timer_inv st \<Longrightarrow> timer_inv (setBackup v cl item file duration st)"
  by (simp add: setBackup_def arm_after_clear_inv)

lemma itemEffect_inv:
  assumes "timer_inv st" and "itemEffect v st = Inr st'"
  shows "timer_inv st'"
proof -
  let ?c = "clearAdvanceTimer st"
  have c: "timer_inv ?c" using assms(1) by (rule clearAdvanceTimer_inv)
  have a: "timer_inv (armAdvanceTimer cl d ?c)" for cl d
    using c clearAdvanceTimer_timeouts [OF assms(1)] by (simp add: armAdvanceTimer_inv)
  have b: "timer_inv (setBackup v cl item fl duration ?c)" for cl item fl duration
    using c by (rule setBackup_inv)
  have l: "timer_inv (?c\<lparr>metadataListeners := x\<rparr>)" for x
    using c by (simp add: timer_inv_def)
  show ?thesis
    using assms(2) a b c l
    by (auto simp: itemEffect_def Let_def split: if_splits option.splits)
qed

lemma switchTo_timers:
  "timeouts (switchTo cl idx st) = timeouts st \<and>
   advanceTimerRef (switchTo cl idx st) = advanceTimerRef st"
  by (simp add: switchTo_def Let_def split: option.splits)

lemma advance_timers:
  "timeouts (advance cl st) = timeouts st \<and> advanceTimerRef (advance cl st) = advanceTimerRef st"
  by (simp add: advance_def switchTo_timers)

lemma goPrev_timers:
  "timeouts (goPrev cl st) = timeouts st \<and> advanceTimerRef (goPrev cl st) = advanceTimerRef st"
  by (simp add: goPrev_def switchTo_timers)

lemma applyCommand_inv:
  assumes "timer_inv st"
  shows "timer_inv (applyCommand num m st)"
proof -
  have p: "timer_inv (clearAdvanceTimer (st\<lparr>powered := False\<rparr>))"
    using assms by (intro clearAdvanceTimer_inv) (simp add: timer_inv_def)
  have q: "timer_inv (st\<lparr>powered := True\<rparr>)"
    using assms by (simp add: timer_inv_def)
  define st1 where "st1 = (if m_action m = ''power''
                   then (let turnOn = (m_value m \<noteq> JStr ''off'')
                         in if \<not> turnOn then clearAdvanceTimer (st\<lparr>powered := False\<rparr>)
                            else st\<lparr>powered := True\<rparr>)
                   else st)"
  define st2 where "st2 = (if m_action m = ''orientation''
                   then st1\<lparr>orientationState :=
                          (if m_value m = JStr ''portrait'' then Portrait else Landscape)\<rparr>
                   else st1)"
  define st3 where "st3 = (if m_action m = ''brightness''
                   then st2\<lparr>brightness :=
                          Math_max (Fin 0) (Math_min (Fin 200) (Number num (m_value m)))\<rparr>
                   else st2)"
  define st4 where "st4 = (if m_action m = ''next'' then advance mount_closure st3 else st3)"
  define st5 where "st5 = (if m_action m = ''prev'' then goPrev mount_closure st4 else st4)"
  have eq: "applyCommand num m st = (if m_type m \<noteq> ''command'' then st else st5)"
    by (simp only: applyCommand_def st5_def st4_def st3_def st2_def st1_def Let_def)
  have 1: "timer_inv st1"
    using assms p q by (simp add: st1_def Let_def)
  have 2: "timer_inv st2"
    using 1 by (simp add: st2_def timer_inv_def)
  have 3: "timer_inv st3"
    using 2 by (simp add: st3_def timer_inv_def)
  have 4: "timer_inv st4"
    using 3 timer_inv_fields [of "advance mount_closure st3" st3]
    by (simp add: st4_def advance_timers)
  have 5: "timer_inv st5"
    using 4 timer_inv_fields [of "goPrev mount_closure st4" st4]
    by (simp add: st5_def goPrev_timers)
  show ?thesis
    using assms 5 by (simp add: eq)
qed

lemma applyCommands_inv:
  "timer_inv st \<Longrightarrow> timer_inv (foldl (\<lambda>s m. applyCommand num m s) st ms)"
  by (induction ms arbitrary: st) (simp_all add: applyCommand_inv)

lemma filter_timeouts_inv:
  assumes "timer_inv st"
  shows "timer_inv (st\<lparr>timeouts := filter P (timeouts st)\<rparr>)"
proof (cases "timeouts st")
  case Nil
  then show ?thesis by (simp add: timer_inv_def)
next
  case (Cons t ts)
  then have "ts = []" and "advanceTimerRef st = Some (t_id t)" and "0 < t_id t"
    using assms by (auto simp: timer_inv_def)
  then show ?thesis using Cons by (simp add: timer_inv_def)
qed

lemma renderPass_inv:
  assumes "timer_inv st" and "renderPass v prev st = Inr st'"
  shows "timer_inv st'"
proof -
  obtain st1 where e: "(if itemDeps prev \<noteq> itemDeps st then itemEffect v st else Inr st) = Inr st1"
    and r: "st' = st1 \<or> st' = st1\<lparr>activeIndex := 0\<rparr>"
    using assms(2) by (auto simp: renderPass_def split: sum.splits if_splits)
  have "timer_inv st1"
    using e assms(1) itemEffect_inv [of st v st1] by (auto split: if_splits)
  then show ?thesis using r by (auto simp: timer_inv_def)
qed

lemma commit_inv:
  assumes "timer_inv st" and "commit v prev st = Inr st'"
  shows "timer_inv st'"
proof -
  obtain st1 where 1: "renderPass v prev st = Inr st1"
    and 2: "st' = st1 \<or> renderPass v st st1 = Inr st'"
    using assms(2) by (auto simp: commit_def split: sum.splits if_splits)
  have "timer_inv st1" using assms(1) 1 by (rule renderPass_inv)
  then show ?thesis using 2 renderPass_inv [of st1 v st st'] by auto
qed

lemma load_timers:
  "timeouts (load num tza fs ss settings now st) = timeouts st \<and>
   advanceTimerRef (load num tza fs ss settings now st) = advanceTimerRef st"
  by (simp add: load_def Let_def split: option.splits)

lemma step_inv:
  assumes "timer_inv st" and "step v num tza ev st = Inr st'"
  shows "timer_inv st'"
proof (cases ev)
  case (Command m)
  then show ?thesis
    using assms commit_inv [of "applyCommand num m st" v st st'] applyCommand_inv [of st num m]
    by (simp add: step_def)
next
  case (Polled ms)
  then show ?thesis
    using assms commit_inv [of "foldl (\<lambda>s m. applyCommand num m s) st ms" v st st']
      applyCommands_inv [of st num ms]
    by (simp add: step_def)
next
  case (TimerFired i)
  show ?thesis
  proof (cases "find (\<lambda>t. t_id t = i) (timeouts st)")
    case None
    then show ?thesis using assms TimerFired by (simp add: step_def)
  next
    case (Some t)
    let ?s = "st\<lparr>timeouts := filter (\<lambda>t. t_id t \<noteq> i) (timeouts st)\<rparr>"
    have "timer_inv ?s" using assms(1) by (rule filter_timeouts_inv)
    then have "timer_inv (advance (t_closure t) ?s)"
      using timer_inv_fields [of "advance (t_closure t) ?s" ?s] by (simp add: advance_timers)
    moreover have "commit v st (advance (t_closure t) ?s) = Inr st'"
      using assms(2) TimerFired Some by (simp add: step_def)
    ultimately show ?thesis by (rule commit_inv)
  qed
next
  case VideoEnded
  have "timer_inv (advance (closure_of st) st)"
    using assms(1) timer_inv_fields [of "advance (closure_of st) st" st] by (simp add: advance_timers)
  moreover have "commit v st (advance (closure_of st) st) = Inr st'"
    using assms(2) VideoEnded by (simp add: step_def)
  ultimately show ?thesis by (rule commit_inv)
next
  case (LoadedMetadata k duration)
  show ?thesis
  proof (cases "js_nth (metadataListeners st) k")
    case None
    then show ?thesis using assms LoadedMetadata by (simp add: step_def)
  next
    case (Some l)
    have "timer_inv (st\<lparr>metadataListeners := remove_nth k (metadataListeners st)\<rparr>)"
      using assms(1) by (simp add: timer_inv_def)
    then show ?thesis
      using assms(2) LoadedMetadata Some by (auto simp: step_def setBackup_inv)
  qed
next
  case (CanPlay k)
  show ?thesis
  proof (cases "js_nth (canplayListeners st) k")
    case None
    then show ?thesis using assms CanPlay by (simp add: step_def)
  next
    case (Some idx)
    let ?s = "st\<lparr>canplayListeners := remove_nth k (canplayListeners st),
                 activeVideoTag := flip_tag (activeVideoTag st), activeIndex := idx\<rparr>"
    have "timer_inv ?s" using assms(1) by (simp add: timer_inv_def)
    moreover have "commit v st ?s = Inr st'"
      using assms(2) CanPlay Some by (simp add: step_def)
    ultimately show ?thesis by (rule commit_inv)
  qed
next
  case (Loaded fs ss settings now)
  have "timer_inv (load num tza fs ss settings now st)"
    using assms(1) timer_inv_fields [of "load num tza fs ss settings now st" st]
    by (simp add: load_timers)
  moreover have "commit v st (load num tza fs ss settings now st) = Inr st'"
    using assms(2) Loaded by (simp add: step_def)
  ultimately show ?thesis by (rule commit_inv)
next
  case (PageChange d)
  then show ?thesis using assms by (auto simp: step_def timer_inv_def)
next
  case Unmount
  then show ?thesis using assms by (auto simp: step_def clearAdvanceTimer_inv)
qed

lemma run_inv:
  "timer_inv st \<Longrightarrow> run v num tza evs st = Inr st' \<Longrightarrow> timer_inv st'"
proof (induction evs arbitrary: st)
  case Nil
  then show ?case by simp
next
  case (Cons ev evs)
  then obtain st1 where 1: "step v num tza ev st = Inr st1" and 2: "run v num tza evs st1 = Inr st'"
    by (auto split: sum.splits)
  have "timer_inv st1" using Cons.prems(1) 1 by (rule step_inv)
  then show ?case using 2 by (rule Cons.IH)
qed

lemma run_snoc:
  "run v num tza (evs @ [ev]) st =
     (case run v num tza evs st of Inl e \<Rightarrow> Inl e | Inr s \<Rightarrow> step v num tza ev s)"
  by (induction evs arbitrary: st) (auto split: sum.splits)

lemma timer_inv_initial: "timer_inv initial"
  by (simp add: timer_inv_def initial_def)

text \<open>
  C5. In both copies of the player page, from the moment the player is mounted and
  after every sequence of events (commands, one at a time or in a polled batch,
  timer expiry, video end, metadata and canplay notifications, reloads, unmount),
  at most one advance timer is pending,
  and it is the one whose id the timer ref holds: every place that arms a timer
  clears the ref's timer first. The same holds from any state with that property.
\<close>

theorem one_advance_timer:
  "(run v num tza evs initial = Inr st' \<longrightarrow>
      length (timeouts st') \<le> 1 \<and>
      (\<forall>t \<in> set (timeouts st'). advanceTimerRef st' = Some (t_id t))) \<and>
   (timer_inv st \<and> run v num tza evs st = Inr st' \<longrightarrow> timer_inv st') \<and>
   (timer_inv st \<longrightarrow> timeouts (clearAdvanceTimer st) = []) \<and>
   (timer_inv st \<longrightarrow> length (timeouts (setBackup v cl item file duration st)) = 1)"
proof -
  have "timer_inv st'" if "run v num tza evs initial = Inr st'"
    using timer_inv_initial that by (rule run_inv)
  then have "run v num tza evs initial = Inr st' \<longrightarrow>
      length (timeouts st') \<le> 1 \<and>
      (\<forall>t \<in> set (timeouts st'). advanceTimerRef st' = Some (t_id t))"
    by (auto simp: timer_inv_def)
  moreover have "timer_inv st \<longrightarrow> length (timeouts (setBackup v cl item file duration st)) = 1"
    by (simp add: setBackup_def armAdvanceTimer_def Let_def clearAdvanceTimer_timeouts)
  ultimately show ?thesis
    using run_inv [of st v num tza evs st'] clearAdvanceTimer_timeouts [of st] by blast
qed


theorem one_advance_timer_witness:
  "\<exists>st'. run Legacy decimal (\<lambda>t. 0)
      [Loaded (Some [exImage ''a'' 1, exImage ''b'' 2]) (Some []) None 0, TimerFired 1,
       Command power_off, Command power_on] initial = Inr st' \<and>
     length (timeouts st') = 1 \<and> map t_id (timeouts st') = [3] \<and> advanceTimerRef st' = Some 3"
proof -
  let ?r = "run Legacy decimal (\<lambda>t. 0)
      [Loaded (Some [exImage ''a'' 1, exImage ''b'' 2]) (Some []) None 0, TimerFired 1,
       Command power_off, Command power_on] initial"
  have "map_sum id (\<lambda>st. map t_id (timeouts st)) ?r = Inr [3]"
    by (simp add: step_def commit_def renderPass_def itemEffect_def currentFile_def
      displayList_of_def displayList_def fallbackEntry_def closure_of_def itemDeps_def
      currentItem_def load_def applyCommand_def advance_def switchTo_def clearAdvanceTimer_def
      armAdvanceTimer_def imageLinkDelay_def DEFAULT_IMAGE_LINK_SEC_def js_nth_def
      startsWith_def isVideo_def initial_def activePlaylist_def exImage_def power_off_def
      power_on_def Let_def)
  then obtain st' where r: "?r = Inr st'" and i: "map t_id (timeouts st') = [3]"
    by (cases ?r) auto
  have "\<forall>t \<in> set (timeouts st'). advanceTimerRef st' = Some (t_id t)"
    using r one_advance_timer [of Legacy decimal "\<lambda>t. 0" _ st'] by blast
  then have "advanceTimerRef st' = Some 3" using i by (cases "timeouts st'") auto
  then show ?thesis using r i by (intro exI [of _ st']) (auto dest: arg_cong [of _ _ length])
qed

section \<open>Duration resolver: precedence\<close>

lemma duration_precedence_enhanced:
  "(positive (item_durationSeconds item) \<longrightarrow>
      getEffectiveDuration item fl settings = the (item_durationSeconds item)) \<and>
   (\<not> positive (item_durationSeconds item) \<and> positive (f_durationSeconds fl) \<longrightarrow>
      getEffectiveDuration item fl settings = the (f_durationSeconds fl)) \<and>
   (\<not> positive (item_durationSeconds item) \<and> \<not> positive (f_durationSeconds fl) \<and>
    startsWith (f_mime fl) ''image/'' \<and> defaultImageDuration settings \<noteq> 0 \<longrightarrow>
      getEffectiveDuration item fl settings = defaultImageDuration settings) \<and>
   (\<not> positive (item_durationSeconds item) \<and> \<not> positive (f_durationSeconds fl) \<and>
    \<not> startsWith (f_mime fl) ''image/'' \<and> startsWith (f_mime fl) ''link/'' \<and>
    defaultLinkDuration settings \<noteq> 0 \<longrightarrow>
      getEffectiveDuration item fl settings = defaultLinkDuration settings) \<and>
   imageLinkDelay Enhanced item fl settings = max (1 / 10) (getEffectiveDuration item fl settings) * 1000 \<and>
   (positive (item_durationSeconds item) \<longrightarrow>
      setBackup_delay Enhanced item fl duration = max (1 / 10) (the (item_durationSeconds item)) * 1000) \<and>
   (\<not> positive (item_durationSeconds item) \<and> positive (f_durationSeconds fl) \<longrightarrow>
      setBackup_delay Enhanced item fl duration = max (1 / 10) (the (f_durationSeconds fl)) * 1000) \<and>
   (\<not> positive (item_durationSeconds item) \<and> \<not> positive (f_durationSeconds fl) \<and> 0 < r \<longrightarrow>
      setBackup_delay Enhanced item fl (Fin r) = (r + 1 / 2) * 1000)"
  by (simp add: getEffectiveDuration_def or_default_def imageLinkDelay_def setBackup_delay_def
        naturalDur_def)

lemma duration_legacy:
  "imageLinkDelay Legacy item fl settings =
     (if positive (item_durationSeconds item) then the (item_durationSeconds item) else 10) * 1000 \<and>
   setBackup_delay Legacy item fl duration =
     (if positive (item_durationSeconds item)
      then max (1 / 10) (the (item_durationSeconds item)) * 1000
      else (naturalDur duration + 1 / 2) * 1000)"
  by (simp add: imageLinkDelay_def DEFAULT_IMAGE_LINK_SEC_def setBackup_delay_def)

text \<open>
  C2, at the failing input. The server's \<open>defaultImageDuration\<close> is set to 15 and an
  image is scheduled without a duration of its own. The copy of the player page that
  computes \<open>DEFAULT_IMAGE_LINK_SEC\<close> arms the advance timer for 10 seconds; the
  copy with \<open>getEffectiveDuration\<close> arms it for the 15 seconds of the hierarchy.
  Likewise, at the default settings, for an external link without a duration and no
  schedules: 10 seconds against the 30 of \<open>defaultLinkDuration\<close>.
\<close>

theorem legacy_player_ignores_defaults:
  "pendingDelays (run Legacy decimal (\<lambda>t. 0)
      [Loaded (Some [exImage ''a'' 1]) (Some [exRule])
         (Some (defaultPlayerSettings\<lparr>defaultImageDuration := 15\<rparr>)) 60000] initial) = Some [10000] \<and>
   pendingDelays (run Enhanced decimal (\<lambda>t. 0)
      [Loaded (Some [exImage ''a'' 1]) (Some [exRule])
         (Some (defaultPlayerSettings\<lparr>defaultImageDuration := 15\<rparr>)) 60000] initial) = Some [15000] \<and>
   pendingDelays (run Legacy decimal (\<lambda>t. 0)
      [Loaded (Some [exLink ''l'' 1]) (Some []) (Some defaultPlayerSettings) 0] initial) = Some [10000] \<and>
   pendingDelays (run Enhanced decimal (\<lambda>t. 0)
      [Loaded (Some [exLink ''l'' 1]) (Some []) (Some defaultPlayerSettings) 0] initial) = Some [30000]"
  by (simp add: step_def commit_def renderPass_def itemEffect_def currentFile_def
      displayList_of_def displayList_def fallbackEntry_def closure_of_def itemDeps_def
      currentItem_def load_def clearAdvanceTimer_def armAdvanceTimer_def imageLinkDelay_def
      DEFAULT_IMAGE_LINK_SEC_def getEffectiveDuration_def or_default_def js_nth_def
      startsWith_def initial_def activePlaylist_def exLink_def exImage_def exRule_def
      defaultPlayerSettings_def pendingDelays_def inTimeWindow_def toMin_def decimal_def
      digit_val_def js_or_def js_ge_def getDay_def LocalTime_def minuteOfDay_def getHours_def
      getMinutes_def Let_def)

section \<open>Sequencer: a list that shrinks under the active index\<close>

lemma missing_file_resets_index:
  assumes "currentFile st = Inr None" and "length (displayList_of st) \<noteq> 0"
    and "(currentFile prev, length (displayList_of prev)) \<noteq> (Inr None, length (displayList_of st))"
    and "renderPass v prev st = Inr st'"
  shows "activeIndex st' = 0"
  using assms by (auto simp: renderPass_def split: sum.splits if_splits)

text \<open>
  C4, at the failing input. Three images play in the fallback mode (newest first, as
  the files listing gives them) and the player has advanced to index 2. The image
  at index 2 is deleted and the player reloads: the list now has two entries, and
  the next render throws a \<open>TypeError\<close> in the \<open>currentFile\<close> memo instead of
  landing on index 0. Both copies of the player page behave so.
\<close>

theorem shrunk_list_throws:
  "run Legacy decimal (\<lambda>t. 0)
     [Loaded (Some [exImage ''c'' 3, exImage ''b'' 2, exImage ''a'' 1]) (Some []) None 0,
      TimerFired 1, TimerFired 2,
      Loaded (Some [exImage ''c'' 3, exImage ''b'' 2]) (Some []) None 4] initial = Inl TypeError \<and>
   run Enhanced decimal (\<lambda>t. 0)
     [Loaded (Some [exImage ''c'' 3, exImage ''b'' 2, exImage ''a'' 1]) (Some []) None 0,
      TimerFired 1, TimerFired 2,
      Loaded (Some [exImage ''c'' 3, exImage ''b'' 2]) (Some []) None 4] initial = Inl TypeError \<and>
   map_sum id activeIndex (run Legacy decimal (\<lambda>t. 0)
     [Loaded (Some [exImage ''c'' 3, exImage ''b'' 2, exImage ''a'' 1]) (Some []) None 0,
      TimerFired 1, TimerFired 2] initial) = Inr 2"
  by (simp add: step_def commit_def renderPass_def itemEffect_def currentFile_def
      displayList_of_def displayList_def fallbackEntry_def closure_of_def itemDeps_def
      currentItem_def load_def advance_def switchTo_def clearAdvanceTimer_def
      armAdvanceTimer_def imageLinkDelay_def DEFAULT_IMAGE_LINK_SEC_def getEffectiveDuration_def
      or_default_def defaultPlayerSettings_def js_nth_def startsWith_def isVideo_def initial_def
      activePlaylist_def exImage_def Let_def)

section \<open>Command interpreter: malformed commands\<close>

lemma unknown_action_ignored:
  assumes "m_action m \<notin> {''power'', ''orientation'', ''brightness'', ''next'', ''prev''}"
  shows "applyCommand num m st = st"
  using assms by (simp add: applyCommand_def)

lemma not_a_command_ignored: "m_type m \<noteq> ''command'' \<Longrightarrow> applyCommand num m st = st"
  by (simp add: applyCommand_def)

lemma brightness_clamped:
  assumes "m_type m = ''command''" and "m_action m = ''brightness''"
    and "Number num (m_value m) = Fin r"
  shows "brightness (applyCommand num m st) = Fin (max 0 (min 200 r))"
  using assms by (auto simp: applyCommand_def advance_def mount_closure_def goPrev_def)

lemma brightness_unreadable_string:
  assumes "num s = NaN"
  shows "brightness (applyCommand num
        \<lparr>m_type = ''command'', m_action = ''brightness'', m_value = JStr s\<rparr> st) = NaN"
  using assms by (simp add: applyCommand_def advance_def goPrev_def mount_closure_def)

text \<open>
  C8, at the failing input. A brightness command without a value (or with one that
  does not read as a number) stores NaN as the player's brightness: \<open>Math.min\<close> and
  \<open>Math.max\<close> pass NaN through. Both copies of the player page behave so.
\<close>

theorem brightness_command_stores_NaN:
  "brightness (applyCommand num brightness_no_value st) = NaN \<and>
   brightnessAfter (run Legacy decimal (\<lambda>t. 0) [Command brightness_no_value] initial) = Some NaN \<and>
   brightnessAfter (run Enhanced decimal (\<lambda>t. 0) [Command brightness_no_value] initial) = Some NaN"
  by (simp add: applyCommand_def brightness_no_value_def advance_def goPrev_def mount_closure_def
      step_def commit_def renderPass_def currentFile_def displayList_of_def displayList_def
      itemDeps_def currentItem_def js_nth_def initial_def brightnessAfter_def)


section \<open>Command interpreter: power\<close>

lemma clearAdvanceTimer_idem: "clearAdvanceTimer (clearAdvanceTimer st) = clearAdvanceTimer st"
  by (cases "advanceTimerRef st") (auto simp: clearAdvanceTimer_def)

lemma clearAdvanceTimer_keeps:
  "files (clearAdvanceTimer st) = files st \<and>
   playlistMemo (clearAdvanceTimer st) = playlistMemo st \<and>
   activeIndex (clearAdvanceTimer st) = activeIndex st \<and>
   powered (clearAdvanceTimer st) = powered st \<and>
   activeVideoTag (clearAdvanceTimer st) = activeVideoTag st \<and>
   serverSettings (clearAdvanceTimer st) = serverSettings st \<and>
   metadataListeners (clearAdvanceTimer st) = metadataListeners st \<and>
   timerSeq (clearAdvanceTimer st) = timerSeq st \<and>
   page (clearAdvanceTimer st) = page st"
  by (cases "advanceTimerRef st") (auto simp: clearAdvanceTimer_def)

lemma clearAdvanceTimer_render:
  "displayList_of (clearAdvanceTimer st) = displayList_of st \<and>
   currentItem (clearAdvanceTimer st) = currentItem st \<and>
   currentFile (clearAdvanceTimer st) = currentFile st \<and>
   closure_of (clearAdvanceTimer st) = closure_of st"
  by (simp add: displayList_of_def currentItem_def currentFile_def closure_of_def
        clearAdvanceTimer_keeps split: option.splits)

lemma clearAdvanceTimer_powered:
  "clearAdvanceTimer (st\<lparr>powered := b\<rparr>) = (clearAdvanceTimer st)\<lparr>powered := b\<rparr>"
  by (cases "advanceTimerRef st") (auto simp: clearAdvanceTimer_def)

lemma powered_render:
  "displayList_of (st\<lparr>powered := b\<rparr>) = displayList_of st \<and>
   currentItem (st\<lparr>powered := b\<rparr>) = currentItem st \<and>
   currentFile (st\<lparr>powered := b\<rparr>) = currentFile st"
  by (simp add: displayList_of_def currentItem_def currentFile_def split: option.splits)

lemma applyCommand_power_off:
  "applyCommand num power_off st = clearAdvanceTimer (st\<lparr>powered := False\<rparr>)"
  by (simp add: applyCommand_def power_off_def)

lemma applyCommand_power_on: "applyCommand num power_on st = st\<lparr>powered := True\<rparr>"
  by (simp add: applyCommand_def power_on_def)

lemma step_power_off:
  "step v num tza (Command power_off) st =
     (case currentFile st of
        Inl e \<Rightarrow> Inl e
      | Inr cf \<Rightarrow> Inr (clearAdvanceTimer (st\<lparr>powered := False\<rparr>)))"
proof (cases "currentFile st")
  case (Inl e)
  then show ?thesis
    by (simp add: step_def applyCommand_power_off commit_def renderPass_def
          clearAdvanceTimer_render powered_render)
next
  case (Inr cf)
  let ?s = "clearAdvanceTimer (st\<lparr>powered := False\<rparr>)"
  have e: "itemEffect v ?s = Inr ?s"
    by (simp add: itemEffect_def Let_def clearAdvanceTimer_idem clearAdvanceTimer_keeps)
  have "renderPass v st ?s = Inr ?s"
    using Inr e
    by (simp add: renderPass_def clearAdvanceTimer_render powered_render)
  then show ?thesis
    using Inr by (simp add: step_def applyCommand_power_off commit_def)
qed

lemma itemEffect_keeps:
  assumes "itemEffect v st = Inr st'"
  shows "activeIndex st' = activeIndex st \<and> powered st' = powered st \<and>
         files st' = files st \<and> playlistMemo st' = playlistMemo st"
  using assms
  by (auto simp: itemEffect_def Let_def setBackup_def armAdvanceTimer_def
        clearAdvanceTimer_keeps split: if_splits option.splits)

lemma step_power_on_off_state:
  assumes "\<not> powered st" and "currentFile st = Inr cf"
  shows "step v num tza (Command power_on) st = itemEffect v (st\<lparr>powered := True\<rparr>)"
proof (cases "itemEffect v (st\<lparr>powered := True\<rparr>)")
  case (Inl e)
  then show ?thesis
    using assms
    by (simp add: step_def applyCommand_power_on commit_def renderPass_def powered_render
          itemDeps_def)
next
  case (Inr st1)
  have k: "activeIndex st1 = activeIndex st"
    using itemEffect_keeps [OF Inr] by simp
  have "renderPass v st (st\<lparr>powered := True\<rparr>) = Inr st1"
    using assms Inr
    by (simp add: renderPass_def powered_render itemDeps_def)
  then show ?thesis
    using Inr k by (simp add: step_def applyCommand_power_on commit_def)
qed

lemma step_power_on_keeps:
  assumes "step v num tza (Command power_on) st = Inr st2"
  shows "powered st2 \<and> activeIndex st2 = activeIndex st"
proof -
  let ?s = "st\<lparr>powered := True\<rparr>"
  have c: "commit v st ?s = Inr st2"
    using assms by (simp add: step_def applyCommand_power_on)
  then obtain cf where cf: "currentFile st = Inr cf"
    by (cases "currentFile st") (auto simp: commit_def renderPass_def powered_render)
  obtain st1 where e: "(if itemDeps st \<noteq> itemDeps ?s then itemEffect v ?s else Inr ?s) = Inr st1"
    and r: "renderPass v st ?s = Inr st1"
    using c cf
    by (cases "if itemDeps st \<noteq> itemDeps ?s then itemEffect v ?s else Inr ?s")
       (auto simp: commit_def renderPass_def powered_render)
  have k: "activeIndex st1 = activeIndex st \<and> powered st1"
    using e itemEffect_keeps [of v ?s st1] by (auto split: if_splits)
  then have "st2 = st1"
    using c r by (simp add: commit_def)
  then show ?thesis using k by simp
qed

lemma itemEffect_image_link:
  assumes "powered st" and "currentItem st = Some item"
    and "find (\<lambda>f. f_id f = item_fileId item) (files st) = Some fl"
    and "startsWith (f_mime fl) ''image/'' \<or> startsWith (f_mime fl) ''link/''"
  shows "itemEffect v st =
     Inr (armAdvanceTimer (closure_of st) (imageLinkDelay v item fl (serverSettings st))
            (clearAdvanceTimer st))"
proof -
  have "length (displayList_of st) \<noteq> 0"
    using assms(2) by (auto simp: currentItem_def js_nth_def split: if_splits)
  then show ?thesis
    using assms
    by (auto simp: itemEffect_def Let_def clearAdvanceTimer_keeps clearAdvanceTimer_render
          currentItem_def)
qed

lemma startsWith_append: "startsWith s p \<Longrightarrow> s = p @ drop (length p) s"
  by (metis append_take_drop_id startsWith_def)

lemma video_is_not_image_or_link:
  assumes "startsWith m ''video/''"
  shows "\<not> startsWith m ''image/'' \<and> \<not> startsWith m ''link/''"
proof -
  obtain r where "m = ''video/'' @ r"
    using startsWith_append [OF assms] by blast
  then show ?thesis by (simp add: startsWith_def)
qed

lemma itemEffect_video_known:
  assumes "powered st" and "currentItem st = Some item"
    and "find (\<lambda>f. f_id f = item_fileId item) (files st) = Some fl"
    and "startsWith (f_mime fl) ''video/''"
    and "getActiveVideo (activeVideoTag st) (page st) = Some vid"
    and "v_duration vid = Fin r" and "0 < r"
  shows "itemEffect v st =
     Inr (setBackup v (closure_of st) item fl (Fin r) (clearAdvanceTimer st))"
proof -
  have "length (displayList_of st) \<noteq> 0"
    using assms(2) by (auto simp: currentItem_def js_nth_def split: if_splits)
  then show ?thesis
    using assms video_is_not_image_or_link [OF assms(4)]
    by (auto simp: itemEffect_def Let_def clearAdvanceTimer_keeps clearAdvanceTimer_render
          currentItem_def js_gt_def)
qed

lemma itemEffect_video_unknown:
  assumes "powered st" and "currentItem st = Some item"
    and "find (\<lambda>f. f_id f = item_fileId item) (files st) = Some fl"
    and "startsWith (f_mime fl) ''video/''"
    and "getActiveVideo (activeVideoTag st) (page st) = Some vid"
    and "\<not> (isFinite (v_duration vid) \<and> js_gt (v_duration vid) (Fin 0))"
  shows "itemEffect v st =
     Inr ((clearAdvanceTimer st)\<lparr>metadataListeners := metadataListeners st @
            [\<lparr>l_item = item, l_file = fl, l_closure = closure_of st\<rparr>]\<rparr>)"
proof -
  have "length (displayList_of st) \<noteq> 0"
    using assms(2) by (auto simp: currentItem_def js_nth_def split: if_splits)
  then show ?thesis
    using assms video_is_not_image_or_link [OF assms(4)]
    by (auto simp: itemEffect_def Let_def clearAdvanceTimer_keeps clearAdvanceTimer_render
          currentItem_def)
qed

lemma currentFile_of_item:
  assumes "currentItem st = Some item"
  shows "currentFile st = Inr (find (\<lambda>f. f_id f = item_fileId item) (files st))"
  using assms by (auto simp: currentFile_def currentItem_def js_nth_def split: if_splits)

lemma arm_after_clear_timeouts:
  assumes "timer_inv st"
  shows "timeouts (armAdvanceTimer cl d (clearAdvanceTimer st)) =
           [\<lparr>t_id = Suc (timerSeq st), t_delay = d, t_closure = cl\<rparr>]"
  using clearAdvanceTimer_timeouts [OF assms]
  by (simp add: armAdvanceTimer_def Let_def clearAdvanceTimer_keeps)


text \<open>
  When each power command is rendered on its own (a message of the WebSocket):
  \<open>power=off\<close> gives a state that a second \<open>power=off\<close> leaves as it is, the player
  is then off, at the same index, and no advance timer is pending. \<open>power=on\<close> never
  changes the index; applied to a player that is off, the change of \<open>powered\<close> runs
  the item effect, which arms the timer of an image or a link, arms the timer of a
  video whose element reports its length, and otherwise leaves the \<open>loadedmetadata\<close>
  handler.
\<close>

lemma power_rendered_each_time:
  "(step v num tza (Command power_off) st = Inr st1 \<longrightarrow>
      step v num tza (Command power_off) st1 = Inr st1 \<and> \<not> powered st1 \<and>
      activeIndex st1 = activeIndex st) \<and>
   (timer_inv st \<and> step v num tza (Command power_off) st = Inr st1 \<longrightarrow> timeouts st1 = []) \<and>
   (step v num tza (Command power_on) st = Inr st2 \<longrightarrow>
      powered st2 \<and> activeIndex st2 = activeIndex st) \<and>
   (timer_inv st \<and> \<not> powered st \<and> currentItem st = Some item \<and>
    find (\<lambda>f. f_id f = item_fileId item) (files st) = Some fl \<and>
    (startsWith (f_mime fl) ''image/'' \<or> startsWith (f_mime fl) ''link/'') \<longrightarrow>
      (\<exists>st3. step v num tza (Command power_on) st = Inr st3 \<and>
         timeouts st3 =
           [\<lparr>t_id = Suc (timerSeq st),
             t_delay = imageLinkDelay v item fl (serverSettings st),
             t_closure = closure_of (st\<lparr>powered := True\<rparr>)\<rparr>])) \<and>
   (timer_inv st \<and> \<not> powered st \<and> currentItem st = Some item \<and>
    find (\<lambda>f. f_id f = item_fileId item) (files st) = Some fl \<and>
    startsWith (f_mime fl) ''video/'' \<and>
    getActiveVideo (activeVideoTag st) (page st) = Some vid \<and> v_duration vid = Fin r \<and> 0 < r \<longrightarrow>
      (\<exists>st3. step v num tza (Command power_on) st = Inr st3 \<and>
         timeouts st3 =
           [\<lparr>t_id = Suc (timerSeq st),
             t_delay = setBackup_delay v item fl (Fin r),
             t_closure = closure_of (st\<lparr>powered := True\<rparr>)\<rparr>])) \<and>
   (timer_inv st \<and> \<not> powered st \<and> currentItem st = Some item \<and>
    find (\<lambda>f. f_id f = item_fileId item) (files st) = Some fl \<and>
    startsWith (f_mime fl) ''video/'' \<and>
    getActiveVideo (activeVideoTag st) (page st) = Some vid \<and>
    \<not> (isFinite (v_duration vid) \<and> js_gt (v_duration vid) (Fin 0)) \<longrightarrow>
      (\<exists>st3. step v num tza (Command power_on) st = Inr st3 \<and> timeouts st3 = [] \<and>
         metadataListeners st3 = metadataListeners st @
           [\<lparr>l_item = item, l_file = fl, l_closure = closure_of (st\<lparr>powered := True\<rparr>)\<rparr>]))"
proof -
  have off: "step v num tza (Command power_off) st1 = Inr st1 \<and> \<not> powered st1 \<and>
      activeIndex st1 = activeIndex st"
    if "step v num tza (Command power_off) st = Inr st1"
  proof (cases "currentFile st")
    case (Inl e)
    then show ?thesis using that by (simp add: step_power_off)
  next
    case (Inr cf)
    then have s1: "st1 = clearAdvanceTimer (st\<lparr>powered := False\<rparr>)"
      using that by (simp add: step_power_off)
    have "currentFile st1 = Inr cf"
      using Inr by (simp add: s1 clearAdvanceTimer_render powered_render)
    moreover have "clearAdvanceTimer (st1\<lparr>powered := False\<rparr>) = st1"
      by (simp add: s1 clearAdvanceTimer_powered clearAdvanceTimer_idem)
    ultimately show ?thesis
      by (simp add: step_power_off) (simp add: s1 clearAdvanceTimer_keeps)
  qed
  have cancel: "timeouts st1 = []"
    if "timer_inv st" and "step v num tza (Command power_off) st = Inr st1"
  proof -
    have "st1 = clearAdvanceTimer (st\<lparr>powered := False\<rparr>)"
      using that(2) by (cases "currentFile st") (auto simp: step_power_off)
    moreover have "timer_inv (st\<lparr>powered := False\<rparr>)"
      using that(1) by (simp add: timer_inv_def)
    ultimately show ?thesis by (simp add: clearAdvanceTimer_timeouts)
  qed
  have img: "\<exists>st3. step v num tza (Command power_on) st = Inr st3 \<and>
         timeouts st3 =
           [\<lparr>t_id = Suc (timerSeq st),
             t_delay = imageLinkDelay v item fl (serverSettings st),
             t_closure = closure_of (st\<lparr>powered := True\<rparr>)\<rparr>]"
    if "timer_inv st" and "\<not> powered st" and "currentItem st = Some item"
      and "find (\<lambda>f. f_id f = item_fileId item) (files st) = Some fl"
      and "startsWith (f_mime fl) ''image/'' \<or> startsWith (f_mime fl) ''link/''"
  proof -
    let ?s = "st\<lparr>powered := True\<rparr>"
    have i: "timer_inv ?s" using that(1) by (simp add: timer_inv_def)
    have "step v num tza (Command power_on) st = itemEffect v ?s"
      using that(2) currentFile_of_item [OF that(3)] by (simp add: step_power_on_off_state)
    also have "\<dots> = Inr (armAdvanceTimer (closure_of ?s) (imageLinkDelay v item fl (serverSettings ?s))
            (clearAdvanceTimer ?s))"
      using that(3,4,5) by (intro itemEffect_image_link) (simp_all add: powered_render)
    finally show ?thesis
      using arm_after_clear_timeouts [OF i] by simp
  qed
  have video: "\<exists>st3. step v num tza (Command power_on) st = Inr st3 \<and>
         timeouts st3 =
           [\<lparr>t_id = Suc (timerSeq st),
             t_delay = setBackup_delay v item fl (Fin r),
             t_closure = closure_of (st\<lparr>powered := True\<rparr>)\<rparr>]"
    if "timer_inv st" and "\<not> powered st" and "currentItem st = Some item"
      and "find (\<lambda>f. f_id f = item_fileId item) (files st) = Some fl"
      and "startsWith (f_mime fl) ''video/''"
      and "getActiveVideo (activeVideoTag st) (page st) = Some vid"
      and "v_duration vid = Fin r" and "0 < r"
  proof -
    let ?s = "st\<lparr>powered := True\<rparr>"
    have i: "timer_inv (clearAdvanceTimer ?s)"
      using that(1) by (intro clearAdvanceTimer_inv) (simp add: timer_inv_def)
    have "step v num tza (Command power_on) st = itemEffect v ?s"
      using that(2) currentFile_of_item [OF that(3)] by (simp add: step_power_on_off_state)
    also have "\<dots> = Inr (setBackup v (closure_of ?s) item fl (Fin r) (clearAdvanceTimer ?s))"
      using that(3-8) by (intro itemEffect_video_known [where vid = vid]) (simp_all add: powered_render)
    finally show ?thesis
      using arm_after_clear_timeouts [OF i]
      by (simp add: setBackup_def clearAdvanceTimer_keeps)
  qed
  have waits: "\<exists>st3. step v num tza (Command power_on) st = Inr st3 \<and> timeouts st3 = [] \<and>
         metadataListeners st3 = metadataListeners st @
           [\<lparr>l_item = item, l_file = fl, l_closure = closure_of (st\<lparr>powered := True\<rparr>)\<rparr>]"
    if "timer_inv st" and "\<not> powered st" and "currentItem st = Some item"
      and "find (\<lambda>f. f_id f = item_fileId item) (files st) = Some fl"
      and "startsWith (f_mime fl) ''video/''"
      and "getActiveVideo (activeVideoTag st) (page st) = Some vid"
      and "\<not> (isFinite (v_duration vid) \<and> js_gt (v_duration vid) (Fin 0))"
  proof -
    let ?s = "st\<lparr>powered := True\<rparr>"
    have i: "timer_inv ?s" using that(1) by (simp add: timer_inv_def)
    have "step v num tza (Command power_on) st = itemEffect v ?s"
      using that(2) currentFile_of_item [OF that(3)] by (simp add: step_power_on_off_state)
    also have "\<dots> = Inr ((clearAdvanceTimer ?s)\<lparr>metadataListeners := metadataListeners ?s @
            [\<lparr>l_item = item, l_file = fl, l_closure = closure_of ?s\<rparr>]\<rparr>)"
      using that(3-7) by (intro itemEffect_video_unknown [where vid = vid]) (simp_all add: powered_render)
    finally show ?thesis
      using clearAdvanceTimer_timeouts [OF i] by simp
  qed
  show ?thesis
    using off cancel step_power_on_keeps [of v num tza st st2] img video waits by blast
qed

text \<open>
  When \<open>power=off\<close> and \<open>power=on\<close> arrive in one answer of the HTTP command queue,
  a player that was on is rendered once, with \<open>powered\<close> unchanged: the item effect
  does not run and the timer that \<open>power=off\<close> cleared stays cleared.
\<close>

lemma polled_off_on:
  assumes "powered st" and "currentFile st = Inr cf"
  shows "step v num tza (Polled [power_off, power_on]) st = Inr (clearAdvanceTimer st)"
proof -
  have "(clearAdvanceTimer st)\<lparr>powered := True\<rparr> = clearAdvanceTimer st"
    using assms(1) by (cases st) (simp add: clearAdvanceTimer_def split: option.splits)
  then have a: "applyCommand num power_on (applyCommand num power_off st) = clearAdvanceTimer st"
    by (simp add: applyCommand_power_off applyCommand_power_on clearAdvanceTimer_powered)
  have "itemDeps (clearAdvanceTimer st) = itemDeps st"
    by (simp add: itemDeps_def clearAdvanceTimer_keeps clearAdvanceTimer_render)
  then have "renderPass v st (clearAdvanceTimer st) = Inr (clearAdvanceTimer st)"
    using assms(2) by (simp add: renderPass_def clearAdvanceTimer_render)
  then show ?thesis
    by (simp add: step_def a commit_def)
qed

text \<open>
  C6, at the failing input. Two images play in the fallback mode; the first is
  showing with its ten-second timer pending. One poll of the HTTP command queue
  returns \<open>power=off\<close> followed by \<open>power=on\<close>. Afterwards the player is on, at the
  same index, and no advance timer is pending: \<open>power=on\<close> did not re-arm it, and a
  reload of the same content does not either. The same two commands as two messages
  of the WebSocket leave a ten-second timer pending. Both copies of the player page
  behave so.
\<close>

theorem polled_power_cycle_loses_timer:
  "outcome (run Legacy decimal (\<lambda>t. 0) [exTwoImages] initial) = Some (True, 0, Some 1, [10000]) \<and>
   outcome (run Legacy decimal (\<lambda>t. 0) [exTwoImages, Polled [power_off, power_on]] initial)
     = Some (True, 0, None, []) \<and>
   outcome (run Enhanced decimal (\<lambda>t. 0) [exTwoImages, Polled [power_off, power_on]] initial)
     = Some (True, 0, None, []) \<and>
   outcome (run Legacy decimal (\<lambda>t. 0)
      [exTwoImages, Polled [power_off, power_on], exTwoImages] initial) = Some (True, 0, None, []) \<and>
   outcome (run Legacy decimal (\<lambda>t. 0) [exTwoImages, Command power_off, Command power_on] initial)
     = Some (True, 0, Some 2, [10000]) \<and>
   outcome (run Enhanced decimal (\<lambda>t. 0) [exTwoImages, Command power_off, Command power_on] initial)
     = Some (True, 0, Some 2, [10000])"
  by (simp add: step_def commit_def renderPass_def itemEffect_def currentFile_def
      displayList_of_def displayList_def fallbackEntry_def closure_of_def itemDeps_def
      currentItem_def load_def applyCommand_def advance_def goPrev_def switchTo_def
      clearAdvanceTimer_def armAdvanceTimer_def imageLinkDelay_def DEFAULT_IMAGE_LINK_SEC_def
      getEffectiveDuration_def or_default_def defaultPlayerSettings_def js_nth_def
      mount_closure_def startsWith_def isVideo_def initial_def activePlaylist_def exImage_def
      power_off_def power_on_def exTwoImages_def outcome_def Let_def)

section \<open>Sequencer: the advance timer of a video\<close>

lemma naturalDur_cases:
  "(0 < r \<longrightarrow> naturalDur (Fin r) = r) \<and> (r \<le> 0 \<longrightarrow> naturalDur (Fin r) = 30) \<and>
   naturalDur NaN = 30 \<and> naturalDur PInf = 30 \<and> naturalDur NInf = 30"
  by (simp add: naturalDur_def)

lemma setBackup_delay_natural:
  assumes "\<not> positive (item_durationSeconds item)" and "\<not> positive (f_durationSeconds fl)"
  shows "setBackup_delay v item fl duration = (naturalDur duration + 1 / 2) * 1000"
  using assms by (simp add: setBackup_delay_def)

lemma loaded_metadata_arms:
  assumes "timer_inv st" and "js_nth (metadataListeners st) k = Some l"
  shows "\<exists>st'. step v num tza (LoadedMetadata k duration) st = Inr st' \<and>
     map t_delay (timeouts st') = [setBackup_delay v (l_item l) (l_file l) duration]"
proof -
  let ?s = "st\<lparr>metadataListeners := remove_nth k (metadataListeners st)\<rparr>"
  have "timer_inv ?s" using assms(1) by (simp add: timer_inv_def)
  then have "map t_delay (timeouts (setBackup v (l_closure l) (l_item l) (l_file l) duration ?s))
      = [setBackup_delay v (l_item l) (l_file l) duration]"
    by (simp add: setBackup_def arm_after_clear_timeouts)
  then show ?thesis using assms(2) by (simp add: step_def)
qed

text \<open>
  For a video with no schedule-level and no content-level duration override,
  \<open>setBackup\<close> arms the advance timer for the length the element reports plus half
  a second, and for 30.5 s when the reported length is not a finite positive number.
  \<open>setBackup\<close> runs at once when the element already reports a finite positive
  length; otherwise the item effect arms no timer and leaves a \<open>loadedmetadata\<close>
  handler, which runs \<open>setBackup\<close> when that event arrives.
\<close>

lemma video_timer_once_metadata_is_known:
  "(\<not> positive (item_durationSeconds item) \<and> \<not> positive (f_durationSeconds fl) \<longrightarrow>
      setBackup_delay v item fl duration = (naturalDur duration + 1 / 2) * 1000) \<and>
   (0 < r \<longrightarrow> naturalDur (Fin r) = r) \<and> (r \<le> 0 \<longrightarrow> naturalDur (Fin r) = 30) \<and>
   naturalDur NaN = 30 \<and> naturalDur PInf = 30 \<and> naturalDur NInf = 30 \<and>
   (timer_inv st \<and> powered st \<and> currentItem st = Some item \<and>
    find (\<lambda>f. f_id f = item_fileId item) (files st) = Some fl \<and>
    startsWith (f_mime fl) ''video/'' \<and>
    getActiveVideo (activeVideoTag st) (page st) = Some vid \<and>
    \<not> positive (item_durationSeconds item) \<and> \<not> positive (f_durationSeconds fl) \<longrightarrow>
      (v_duration vid = Fin r \<and> 0 < r \<longrightarrow>
         (\<exists>st'. itemEffect v st = Inr st' \<and> map t_delay (timeouts st') = [(r + 1 / 2) * 1000])) \<and>
      (\<not> (isFinite (v_duration vid) \<and> js_gt (v_duration vid) (Fin 0)) \<longrightarrow>
         (\<exists>st'. itemEffect v st = Inr st' \<and> timeouts st' = [] \<and>
            metadataListeners st' = metadataListeners st @
              [\<lparr>l_item = item, l_file = fl, l_closure = closure_of st\<rparr>]))) \<and>
   (timer_inv st \<and> js_nth (metadataListeners st) k = Some l \<and>
    \<not> positive (item_durationSeconds (l_item l)) \<and> \<not> positive (f_durationSeconds (l_file l)) \<longrightarrow>
      (\<exists>st'. step v num tza (LoadedMetadata k duration) st = Inr st' \<and>
         map t_delay (timeouts st') = [(naturalDur duration + 1 / 2) * 1000]))"
proof -
  have known: "\<exists>st'. itemEffect v st = Inr st' \<and> map t_delay (timeouts st') = [(r + 1 / 2) * 1000]"
    if "timer_inv st" and "powered st" and "currentItem st = Some item"
      and "find (\<lambda>f. f_id f = item_fileId item) (files st) = Some fl"
      and "startsWith (f_mime fl) ''video/''"
      and "getActiveVideo (activeVideoTag st) (page st) = Some vid"
      and "\<not> positive (item_durationSeconds item)" and "\<not> positive (f_durationSeconds fl)"
      and "v_duration vid = Fin r" and "0 < r"
  proof -
    have "itemEffect v st = Inr (setBackup v (closure_of st) item fl (Fin r) (clearAdvanceTimer st))"
      using that by (intro itemEffect_video_known [where vid = vid]) simp_all
    moreover have "timer_inv (clearAdvanceTimer st)"
      using that(1) by (rule clearAdvanceTimer_inv)
    ultimately show ?thesis
      using that(7,8,10)
      by (simp add: setBackup_def arm_after_clear_timeouts setBackup_delay_natural naturalDur_def)
  qed
  have unknown: "\<exists>st'. itemEffect v st = Inr st' \<and> timeouts st' = [] \<and>
            metadataListeners st' = metadataListeners st @
              [\<lparr>l_item = item, l_file = fl, l_closure = closure_of st\<rparr>]"
    if "timer_inv st" and "powered st" and "currentItem st = Some item"
      and "find (\<lambda>f. f_id f = item_fileId item) (files st) = Some fl"
      and "startsWith (f_mime fl) ''video/''"
      and "getActiveVideo (activeVideoTag st) (page st) = Some vid"
      and "\<not> (isFinite (v_duration vid) \<and> js_gt (v_duration vid) (Fin 0))"
  proof -
    have "itemEffect v st = Inr ((clearAdvanceTimer st)\<lparr>metadataListeners := metadataListeners st @
            [\<lparr>l_item = item, l_file = fl, l_closure = closure_of st\<rparr>]\<rparr>)"
      using that by (intro itemEffect_video_unknown [where vid = vid]) simp_all
    then show ?thesis
      using clearAdvanceTimer_timeouts [OF that(1)] by simp
  qed
  have later: "\<exists>st'. step v num tza (LoadedMetadata k duration) st = Inr st' \<and>
         map t_delay (timeouts st') = [(naturalDur duration + 1 / 2) * 1000]"
    if "timer_inv st" and "js_nth (metadataListeners st) k = Some l"
      and "\<not> positive (item_durationSeconds (l_item l))" and "\<not> positive (f_durationSeconds (l_file l))"
    using loaded_metadata_arms [OF that(1,2), of v num tza duration]
      setBackup_delay_natural [OF that(3,4), of v duration]
    by simp
  show ?thesis
    using setBackup_delay_natural [of item fl v duration] naturalDur_cases [of r]
      known unknown later
    by blast
qed

text \<open>
  C7, at the failing input. A video without any duration override becomes the
  current item while its element reports no length (as a freshly mounted element
  does), followed in the list by an image. The item effect arms no timer and waits
  for \<open>loadedmetadata\<close>: the thirty-second default is inside the handler of that
  event. Until the event arrives no timer is pending, so no timer expiry advances
  the player, and a reload of the same content changes nothing; if the metadata
  never loads, the player stays on the video. When the event arrives without a
  usable length the timer is armed for 30.5 s, and with a length of 12 s for
  12.5 s. Both copies of the player page behave so.
\<close>

theorem video_without_metadata_stalls:
  "outcome (run Legacy decimal (\<lambda>t. 0) [PageChange (exTags NaN), exVideoFirst] initial)
     = Some (True, 0, None, []) \<and>
   outcome (run Enhanced decimal (\<lambda>t. 0) [PageChange (exTags NaN), exVideoFirst] initial)
     = Some (True, 0, None, []) \<and>
   (\<forall>n. run Legacy decimal (\<lambda>t. 0) [PageChange (exTags NaN), exVideoFirst, TimerFired n] initial
        = run Legacy decimal (\<lambda>t. 0) [PageChange (exTags NaN), exVideoFirst] initial) \<and>
   (\<forall>n. run Enhanced decimal (\<lambda>t. 0) [PageChange (exTags NaN), exVideoFirst, TimerFired n] initial
        = run Enhanced decimal (\<lambda>t. 0) [PageChange (exTags NaN), exVideoFirst] initial) \<and>
   outcome (run Legacy decimal (\<lambda>t. 0)
      [PageChange (exTags NaN), exVideoFirst, exVideoFirst] initial) = Some (True, 0, None, []) \<and>
   outcome (run Legacy decimal (\<lambda>t. 0)
      [PageChange (exTags NaN), exVideoFirst, LoadedMetadata 0 NaN] initial)
     = Some (True, 0, Some 1, [30500]) \<and>
   outcome (run Enhanced decimal (\<lambda>t. 0)
      [PageChange (exTags NaN), exVideoFirst, LoadedMetadata 0 NaN] initial)
     = Some (True, 0, Some 1, [30500]) \<and>
   outcome (run Legacy decimal (\<lambda>t. 0)
      [PageChange (exTags NaN), exVideoFirst, LoadedMetadata 0 (Fin 12)] initial)
     = Some (True, 0, Some 1, [12500]) \<and>
   outcome (run Legacy decimal (\<lambda>t. 0) [PageChange (exTags (Fin 12)), exVideoFirst] initial)
     = Some (True, 0, Some 1, [12500])"
  by (simp add: step_def commit_def renderPass_def itemEffect_def currentFile_def
      displayList_of_def displayList_def fallbackEntry_def closure_of_def itemDeps_def
      currentItem_def load_def clearAdvanceTimer_def armAdvanceTimer_def js_nth_def
      startsWith_def initial_def activePlaylist_def exImage_def exVideo_def exVideoFirst_def
      outcome_def exTags_def getActiveVideo_def setBackup_def setBackup_delay_def
      naturalDur_def remove_nth_def js_gt_def Let_def)

end
